theory Spec2Isabelle
  imports Complex_Main "HOL-Library.Word"
begin

section \<open>Pieces of the Go runtime the logging middleware relies on\<close>

text \<open>
  The middleware of \<^verbatim>\<open>logmiddlware.go\<close> is a wrapper around three collaborators that
  live outside the repository: the real response sink (\<^verbatim>\<open>http.ResponseWriter\<close>), the
  log sink (\<^verbatim>\<open>io.Writer\<close>) and the clock. Go strings are byte strings, so they are
  \<^typ>\<open>string\<close> here (a list of 8-bit characters). Go's \<^verbatim>\<open>int\<close> and \<^verbatim>\<open>int64\<close> are 64-bit
  words read as signed numbers (the size of \<^verbatim>\<open>int\<close> on every 64-bit platform).
\<close>

type_synonym go_int = "64 word"

subsection \<open>Decimal rendering (the verb \<^verbatim>\<open>%d\<close>)\<close>

definition lowerhex :: string where
  "lowerhex = ''0123456789abcdef''"

fun digits :: "nat \<Rightarrow> string" where
  "digits n = (if n < 10 then [lowerhex ! n] else digits (n div 10) @ [lowerhex ! (n mod 10)])"

declare digits.simps [simp del]

definition format_int :: "int \<Rightarrow> string" where
  "format_int i = (if i < 0 then CHR ''-'' # digits (nat (- i)) else digits (nat i))"

definition fmt_d :: "go_int \<Rightarrow> string" where
  "fmt_d x = format_int (sint x)"

subsection \<open>\<^verbatim>\<open>strings.Split\<close> with a one-byte separator\<close>

fun Split :: "string \<Rightarrow> char \<Rightarrow> string list" where
  "Split [] sep = [[]]"
| "Split (c # cs) sep =
     (if c = sep then [] # Split cs sep
      else (case Split cs sep of [] \<Rightarrow> [[c]] | x # xs \<Rightarrow> (c # x) # xs))"

subsection \<open>\<^verbatim>\<open>strconv.Quote\<close>\<close>

text \<open>
  \<^verbatim>\<open>strconv.Quote\<close> walks the string rune by rune. A rune is a code point, a natural
  number here. \<^verbatim>\<open>utf8.DecodeRuneInString\<close> returns the rune and its width in bytes, and
  \<^verbatim>\<open>(RuneError, 1)\<close> on a byte that starts no valid encoding.
\<close>

definition RuneError :: nat where
  "RuneError = 0xFFFD"

definition DecodeRuneInString :: "string \<Rightarrow> nat \<times> nat" where
  "DecodeRuneInString s =
     (case s of
        [] \<Rightarrow> (RuneError, 0)
      | c0 # _ \<Rightarrow>
          (let s0 = (of_char c0 :: nat) in
           if s0 < 0x80 then (s0, 1)
           else if s0 < 0xC2 \<or> 0xF4 < s0 then (RuneError, 1)
           else
             (let sz = (if s0 < 0xE0 then 2 else if s0 < 0xF0 then 3 else (4::nat));
                  lo = (if s0 = 0xE0 then 0xA0 else if s0 = 0xF0 then 0x90 else (0x80::nat));
                  hi = (if s0 = 0xED then 0x9F else if s0 = 0xF4 then 0x8F else (0xBF::nat))
              in
              if length s < sz then (RuneError, 1)
              else
                (let s1 = (of_char (s ! 1) :: nat) in
                 if s1 < lo \<or> hi < s1 then (RuneError, 1)
                 else if sz \<le> 2 then ((s0 mod 32) * 64 + s1 mod 64, 2)
                 else
                   (let s2 = (of_char (s ! 2) :: nat) in
                    if s2 < 0x80 \<or> 0xBF < s2 then (RuneError, 1)
                    else if sz \<le> 3 then ((s0 mod 16) * 4096 + (s1 mod 64) * 64 + s2 mod 64, 3)
                    else
                      (let s3 = (of_char (s ! 3) :: nat) in
                       if s3 < 0x80 \<or> 0xBF < s3 then (RuneError, 1)
                       else ((s0 mod 8) * 262144 + (s1 mod 64) * 4096 + (s2 mod 64) * 64
                               + s3 mod 64, 4)))))))"

text \<open>\<^verbatim>\<open>utf8.AppendRune\<close>: the UTF-8 encoding of a rune.\<close>

definition AppendRune :: "nat \<Rightarrow> string" where
  "AppendRune r =
     (if r \<le> 0x7F then [char_of r]
      else if r \<le> 0x7FF then [char_of (0xC0 + r div 64), char_of (0x80 + r mod 64)]
      else
        (let r' = (if 0x10FFFF < r \<or> (0xD800 \<le> r \<and> r \<le> 0xDFFF) then RuneError else r) in
         if r' \<le> 0xFFFF
         then [char_of (0xE0 + r' div 4096), char_of (0x80 + (r' div 64) mod 64),
               char_of (0x80 + r' mod 64)]
         else [char_of (0xF0 + r' div 262144), char_of (0x80 + (r' div 4096) mod 64),
               char_of (0x80 + (r' div 64) mod 64), char_of (0x80 + r' mod 64)]))"

text \<open>
  \<^verbatim>\<open>strconv.IsPrint\<close> decides the runes up to \<^verbatim>\<open>0xFF\<close> by comparisons and every other
  rune by a search in the Unicode tables of the \<^verbatim>\<open>strconv\<close> package. The tables are a
  parameter \<open>tbl\<close> of the model: the predicate they decide.
\<close>

type_synonym print_table = "nat \<Rightarrow> bool"

definition IsPrint :: "print_table \<Rightarrow> nat \<Rightarrow> bool" where
  "IsPrint tbl r =
     (if r \<le> 0xFF then
        (if 0x20 \<le> r \<and> r \<le> 0x7E then True
         else if 0xA1 \<le> r \<and> r \<le> 0xFF then r \<noteq> 0xAD
         else False)
      else tbl r)"

definition hex_digits :: "nat \<Rightarrow> nat \<Rightarrow> string" where
  \<comment> \<open>the \<open>k\<close> low hexadecimal digits of \<open>r\<close>, most significant first\<close>
  "hex_digits k r = map (\<lambda>i. lowerhex ! ((r div 16 ^ i) mod 16)) (rev [0..<k])"

definition appendEscapedRune :: "print_table \<Rightarrow> nat \<Rightarrow> string" where
  "appendEscapedRune tbl r =
     (if r = 0x22 \<or> r = 0x5C then [CHR 0x5C, char_of r]
      else if IsPrint tbl r then AppendRune r
      else if r = 0x07 then [CHR 0x5C, CHR ''a'']
      else if r = 0x08 then [CHR 0x5C, CHR ''b'']
      else if r = 0x0C then [CHR 0x5C, CHR ''f'']
      else if r = 0x0A then [CHR 0x5C, CHR ''n'']
      else if r = 0x0D then [CHR 0x5C, CHR ''r'']
      else if r = 0x09 then [CHR 0x5C, CHR ''t'']
      else if r = 0x0B then [CHR 0x5C, CHR ''v'']
      else if r < 0x20 \<or> r = 0x7F then [CHR 0x5C, CHR ''x''] @ hex_digits 2 r
      else
        (let r' = (if 0x10FFFF < r \<or> (0xD800 \<le> r \<and> r \<le> 0xDFFF) then RuneError else r) in
         if r' < 0x10000 then [CHR 0x5C, CHR ''u''] @ hex_digits 4 r'
         else [CHR 0x5C, CHR ''U''] @ hex_digits 8 r'))"

text \<open>
  The loop of \<^verbatim>\<open>appendQuotedWith\<close>: one rune per round; a byte that is no valid UTF-8
  is written as \<^verbatim>\<open>\x\<close> and its two hexadecimal digits.
\<close>

fun quote_body :: "print_table \<Rightarrow> string \<Rightarrow> string" where
  "quote_body tbl [] = []"
| "quote_body tbl (c # cs) =
     (let rw = (if (of_char c :: nat) \<ge> 0x80 then DecodeRuneInString (c # cs)
                else (of_char c, 1))
      in
      if snd rw = 1 \<and> fst rw = RuneError
      then [CHR 0x5C, CHR ''x''] @ hex_digits 2 (of_char c) @ quote_body tbl cs
      else appendEscapedRune tbl (fst rw) @ quote_body tbl (drop (snd rw - 1) cs))"

definition Quote :: "print_table \<Rightarrow> string \<Rightarrow> string" where
  "Quote tbl s = [CHR 0x22] @ quote_body tbl s @ [CHR 0x22]"

subsection \<open>The clock and the layout \<^verbatim>\<open>time.RFC3339\<close>\<close>

text \<open>
  A reading of the clock is a civil time with the offset of its zone in seconds east of
  UTC. \<^verbatim>\<open>Format(time.RFC3339)\<close> renders it as \<^verbatim>\<open>2006-01-02T15:04:05Z07:00\<close>.
\<close>

record Time =
  year :: int
  month :: nat
  day :: nat
  hour :: nat
  minute :: nat
  second :: nat
  zone_offset :: int

definition appendInt :: "int \<Rightarrow> nat \<Rightarrow> string" where
  \<comment> \<open>the sign, then the digits padded with zeros to the width\<close>
  "appendInt x width =
     (let ds = digits (nat \<bar>x\<bar>) in
      (if x < 0 then ''-'' else '''') @ replicate (width - length ds) CHR ''0'' @ ds)"

definition go_quot :: "int \<Rightarrow> int \<Rightarrow> int" where
  \<comment> \<open>Go's integer division, which truncates towards zero\<close>
  "go_quot a b = sgn a * sgn b * (\<bar>a\<bar> div \<bar>b\<bar>)"

definition format_RFC3339 :: "Time \<Rightarrow> string" where
  "format_RFC3339 t =
     appendInt (year t) 4 @ ''-'' @ appendInt (int (month t)) 2 @ ''-''
     @ appendInt (int (day t)) 2 @ ''T'' @ appendInt (int (hour t)) 2 @ '':''
     @ appendInt (int (minute t)) 2 @ '':'' @ appendInt (int (second t)) 2
     @ (if zone_offset t = 0 then ''Z''
        else
          (let zone = go_quot (zone_offset t) 60 in
           (if zone < 0 then ''-'' else ''+'')
           @ appendInt (\<bar>zone\<bar> div 60) 2 @ '':'' @ appendInt (\<bar>zone\<bar> mod 60) 2))"

definition Milliseconds :: "go_int \<Rightarrow> go_int" where
  \<comment> \<open>\<^verbatim>\<open>Duration.Milliseconds\<close>: the nanoseconds divided by \<^verbatim>\<open>1e6\<close>\<close>
  "Milliseconds d = word_of_int (go_quot (sint d) 1000000)"

subsection \<open>\<^verbatim>\<open>float64\<close> division and the verb \<^verbatim>\<open>%.2f\<close>\<close>

text \<open>
  The values of \<^verbatim>\<open>float64\<close> that arise here are quotients of two converted 64-bit
  integers with a divisor other than zero, so they lie in the normal range of
  IEEE 754 binary64 and are modelled by the rational they denote. Conversion and division
  round the exact result to 53 significant bits, ties to even. \<^verbatim>\<open>%.2f\<close> prints the exact
  decimal expansion of the value rounded to two places, ties to even.
\<close>

definition round_half_even :: "rat \<Rightarrow> int" where
  "round_half_even q =
     (let f = \<lfloor>q\<rfloor>; d = q - of_int f in
      if d < 1 / 2 then f else if 1 / 2 < d then f + 1 else if even f then f else f + 1)"

fun bit_length :: "nat \<Rightarrow> nat" where
  "bit_length n = (if n = 0 then 0 else Suc (bit_length (n div 2)))"

declare bit_length.simps [simp del]

definition pow2 :: "int \<Rightarrow> rat" where
  "pow2 e = (if 0 \<le> e then 2 ^ nat e else 1 / 2 ^ nat (- e))"

definition ilog2 :: "rat \<Rightarrow> int" where
  \<comment> \<open>for \<open>0 < q\<close>: the exponent \<open>e\<close> with \<open>2 ^ e \<le> q < 2 ^ (e + 1)\<close>\<close>
  "ilog2 q =
     (let (a, b) = quotient_of q;
          e = int (bit_length (nat a)) - int (bit_length (nat b))
      in if pow2 e \<le> q then e else e - 1)"

definition round_float64 :: "rat \<Rightarrow> rat" where
  "round_float64 q =
     (if q = 0 then 0
      else
        (let ulp = pow2 (ilog2 \<bar>q\<bar> - 52) in
         sgn q * of_int (round_half_even (\<bar>q\<bar> / ulp)) * ulp))"

definition float64 :: "go_int \<Rightarrow> rat" where
  "float64 x = round_float64 (of_int (sint x))"

definition float64_div :: "rat \<Rightarrow> rat \<Rightarrow> rat" where
  "float64_div x y = round_float64 (x / y)"

definition fmt_2f :: "rat \<Rightarrow> string" where
  "fmt_2f v =
     (let r = round_half_even (\<bar>v\<bar> * 100) in
      (if v < 0 then ''-'' else '''') @ digits (nat (r div 100)) @ ''.''
      @ appendInt (r mod 100) 2)"

subsection \<open>Errors\<close>

text \<open>
  A Go error is its message and, when its type has an \<^verbatim>\<open>Unwrap() error\<close> method that
  returns an error, the error it wraps. \<open>ErrorString\<close> stands for every error that
  \<^verbatim>\<open>errors.Unwrap\<close> takes to nil: one with no such method, with one that returns nil, or
  with an \<^verbatim>\<open>Unwrap() []error\<close> method. Unwrapping an error again and again forms a
  finite chain, as the documentation of package \<^verbatim>\<open>errors\<close> has it. The nil error is no
  value of the type: \<^verbatim>\<open>LogError\<close> panics on it before it does anything.
\<close>

datatype error = ErrorString string | Wrapped string error

primrec Error :: "error \<Rightarrow> string" where
  "Error (ErrorString m) = m"
| "Error (Wrapped m e) = m"

primrec Unwrap :: "error \<Rightarrow> error option" where
  "Unwrap (ErrorString m) = None"
| "Unwrap (Wrapped m e) = Some e"

subsection \<open>The request, the real response sink and the log sink\<close>

text \<open>
  Of the request, the middleware reads the remote address, the method, the URL (printed
  with \<^verbatim>\<open>%s\<close>, that is the text \<^verbatim>\<open>URL.String()\<close> returns) and the header
  \<^verbatim>\<open>User-Agent\<close> (what \<^verbatim>\<open>req.UserAgent()\<close> returns).
\<close>

record Request =
  RemoteAddr :: string
  Method :: string
  URL :: string
  UserAgent :: string

text \<open>
  The real sink is any implementation of \<^verbatim>\<open>http.ResponseWriter\<close>. It is modelled by
  the calls it has received so far, and by what it answers: the answer of \<^verbatim>\<open>Write\<close> is
  a function of the calls made before and of the bytes offered, so that any deterministic
  sink is covered. \<open>hijacker\<close> is \<open>None\<close> when the sink's type does not implement
  \<^verbatim>\<open>http.Hijacker\<close>.
\<close>

datatype Conn = Conn nat

datatype ReadWriter = ReadWriter nat

datatype sink_call =
    SinkHeaderSet string string
  | SinkWriteHeader go_int
  | SinkWrite string
  | SinkHijack

type_synonym hijack_result = "Conn option \<times> ReadWriter option \<times> error option"

record http_ResponseWriter =
  calls :: "sink_call list"
  write_reply :: "sink_call list \<Rightarrow> string \<Rightarrow> go_int \<times> error option"
  hijacker :: "(sink_call list \<Rightarrow> hijack_result) option"

definition sink_WriteHeader :: "http_ResponseWriter \<Rightarrow> go_int \<Rightarrow> http_ResponseWriter" where
  "sink_WriteHeader s st = s\<lparr>calls := calls s @ [SinkWriteHeader st]\<rparr>"

definition sink_Write ::
  "http_ResponseWriter \<Rightarrow> string \<Rightarrow> (go_int \<times> error option) \<times> http_ResponseWriter" where
  "sink_Write s b = (write_reply s (calls s) b, s\<lparr>calls := calls s @ [SinkWrite b]\<rparr>)"

definition sink_HeaderSet :: "http_ResponseWriter \<Rightarrow> string \<Rightarrow> string \<Rightarrow> http_ResponseWriter" where
  "sink_HeaderSet s k v = s\<lparr>calls := calls s @ [SinkHeaderSet k v]\<rparr>"

text \<open>
  \<^verbatim>\<open>http.Error\<close> sets the content type, forbids sniffing, writes the header with the
  status code and prints the message and a line feed to the sink. (Recent releases of Go
  first delete a few headers of the response, such as \<^verbatim>\<open>Content-Length\<close>; the model
  leaves these deletions out.)
\<close>

definition http_Error :: "http_ResponseWriter \<Rightarrow> string \<Rightarrow> go_int \<Rightarrow> http_ResponseWriter" where
  "http_Error s msg code =
     (let s1 = sink_HeaderSet s ''Content-Type'' ''text/plain; charset=utf-8'';
          s2 = sink_HeaderSet s1 ''X-Content-Type-Options'' ''nosniff'';
          s3 = sink_WriteHeader s2 code
      in snd (sink_Write s3 (msg @ [CHR 0x0A])))"

section \<open>The logging response writer\<close>

text \<open>
  The log sink is an \<^verbatim>\<open>io.Writer\<close>; \<^verbatim>\<open>fmt.Fprintf\<close> hands it the formatted text in one
  call of \<^verbatim>\<open>Write\<close> and drops the result. The field \<open>logWriter\<close> holds the texts the sink
  has been handed, oldest first.
\<close>

record LoggingResponseWriter =
  ResponseWriter :: http_ResponseWriter
  logWriter :: "string list"
  req :: Request
  status :: go_int
  wroteBytes :: go_int
  sentBytes :: go_int
  wrote :: bool

definition NewLoggingResponseWriter ::
  "http_ResponseWriter \<Rightarrow> Request \<Rightarrow> string list \<Rightarrow> LoggingResponseWriter" where
  "NewLoggingResponseWriter w r lw =
     \<lparr>ResponseWriter = w, logWriter = lw, req = r, status = 0, wroteBytes = 0,
      sentBytes = 0, wrote = False\<rparr>"

definition CompressionRatio :: "LoggingResponseWriter \<Rightarrow> string" where
  "CompressionRatio w =
     (if sentBytes w = 0 \<or> wroteBytes w = 0 \<or> wroteBytes w = sentBytes w then ''-''
      else
        (let s = fmt_2f (float64_div (float64 (wroteBytes w)) (float64 (sentBytes w))) in
         if s = ''0.00'' then ''-'' else s))"

text \<open>
  The text \<^verbatim>\<open>Log\<close> prints with the format
  \<^verbatim>\<open>"%s %s %s \"%s\" %d %d %d %s %s %s\n"\<close>.
\<close>

definition log_record ::
  "print_table \<Rightarrow> Time \<Rightarrow> string \<Rightarrow> string \<Rightarrow> string \<Rightarrow> go_int \<Rightarrow> go_int \<Rightarrow> go_int \<Rightarrow> string
     \<Rightarrow> string \<Rightarrow> string \<Rightarrow> string" where
  "log_record tbl now remoteAddr method url st duration bytes ratio ua msg =
     format_RFC3339 now @ '' '' @ remoteAddr @ '' '' @ method @ '' '' @ [CHR 0x22] @ url
     @ [CHR 0x22] @ '' '' @ fmt_d st @ '' '' @ fmt_d (Milliseconds duration) @ '' ''
     @ fmt_d bytes @ '' '' @ ratio @ '' '' @ Quote tbl ua @ '' '' @ Quote tbl msg
     @ [CHR 0x0A]"

definition Log ::
  "print_table \<Rightarrow> Time \<Rightarrow> go_int \<Rightarrow> go_int \<Rightarrow> go_int \<Rightarrow> string \<Rightarrow> string
     \<Rightarrow> LoggingResponseWriter \<Rightarrow> LoggingResponseWriter" where
  "Log tbl now st duration bytes ratio msg w =
     (if wrote w then w
      else
        (let ss = Split (RemoteAddr (req w)) CHR '':'';
             remoteAddr = (case ss of [] \<Rightarrow> RemoteAddr (req w) | x # _ \<Rightarrow> x)
         in w\<lparr>wrote := True,
              logWriter := logWriter w
                @ [log_record tbl now remoteAddr (Method (req w)) (URL (req w)) st duration
                     bytes ratio (UserAgent (req w)) msg]\<rparr>))"

text \<open>The loop of \<^verbatim>\<open>LogError\<close> that looks for the message of the bottom error.\<close>

fun unwrap_loop :: "string \<Rightarrow> error \<Rightarrow> string" where
  "unwrap_loop msg (ErrorString m) = msg"
| "unwrap_loop msg (Wrapped m e) = unwrap_loop (Error e) e"

definition LogError ::
  "print_table \<Rightarrow> Time \<Rightarrow> go_int \<Rightarrow> error \<Rightarrow> LoggingResponseWriter \<Rightarrow> LoggingResponseWriter" where
  "LogError tbl now st err w =
     (let msg = unwrap_loop (Error err) err;
          w1 = Log tbl now st 0 0 ''-'' msg w;
          w2 = w1\<lparr>status := st\<rparr>
      in if sentBytes w2 = 0
         then w2\<lparr>ResponseWriter := http_Error (ResponseWriter w2) (Quote tbl msg) st\<rparr>
         else w2)"

definition WriteHeader :: "go_int \<Rightarrow> LoggingResponseWriter \<Rightarrow> LoggingResponseWriter" where
  "WriteHeader st w =
     w\<lparr>status := st, ResponseWriter := sink_WriteHeader (ResponseWriter w) st\<rparr>"

definition Write ::
  "string \<Rightarrow> LoggingResponseWriter \<Rightarrow> (go_int \<times> error option) \<times> LoggingResponseWriter" where
  "Write b w =
     (let w1 = (if status w = 0 then w\<lparr>status := 200\<rparr> else w);
          (r, sink') = sink_Write (ResponseWriter w1) b
      in (r, w1\<lparr>ResponseWriter := sink', sentBytes := sentBytes w1 + fst r\<rparr>))"

definition Hijack :: "LoggingResponseWriter \<Rightarrow> hijack_result \<times> LoggingResponseWriter" where
  "Hijack w =
     (case hijacker (ResponseWriter w) of
        Some hj \<Rightarrow>
          (hj (calls (ResponseWriter w)),
           w\<lparr>ResponseWriter :=
               (ResponseWriter w)\<lparr>calls := calls (ResponseWriter w) @ [SinkHijack]\<rparr>\<rparr>)
      | None \<Rightarrow> ((None, None, Some (ErrorString ''http.Hijacker not implemented'')), w))"

text \<open>\<^verbatim>\<open>Header()\<close> is promoted from the embedded sink: the wrapper adds nothing to it.\<close>

definition HeaderSet :: "string \<Rightarrow> string \<Rightarrow> LoggingResponseWriter \<Rightarrow> LoggingResponseWriter" where
  "HeaderSet k v w = w\<lparr>ResponseWriter := sink_HeaderSet (ResponseWriter w) k v\<rparr>"

section \<open>The middleware\<close>

text \<open>
  The downstream handler is any Go code that is given the wrapper as its response
  writer. What it can do to the wrapper is call its methods, any number of times and
  depending on what the calls return, and then return or panic. A handler is the tree of
  these calls. A call of \<^verbatim>\<open>Log\<close> or \<^verbatim>\<open>LogError\<close> reads the clock; the reading stands at
  the call. \<^verbatim>\<open>LogError\<close> with a nil error panics at \<^verbatim>\<open>err.Error()\<close>, which is the
  handler \<open>Panic\<close>.
\<close>

datatype handler =
    Return
  | Panic string
  | DoHeaderSet string string handler
  | DoWriteHeader go_int handler
  | DoWrite string "go_int \<times> error option \<Rightarrow> handler"
  | DoLog Time go_int go_int go_int string string handler
  | DoLogError Time go_int error handler
  | DoHijack "hijack_result \<Rightarrow> handler"
  | DoCompressionRatio "string \<Rightarrow> handler"

datatype outcome = Returned | Panicked string

primrec run_handler ::
  "print_table \<Rightarrow> handler \<Rightarrow> LoggingResponseWriter \<Rightarrow> LoggingResponseWriter \<times> outcome" where
  "run_handler tbl Return w = (w, Returned)"
| "run_handler tbl (Panic v) w = (w, Panicked v)"
| "run_handler tbl (DoHeaderSet k v h) w = run_handler tbl h (HeaderSet k v w)"
| "run_handler tbl (DoWriteHeader st h) w = run_handler tbl h (WriteHeader st w)"
| "run_handler tbl (DoWrite b k) w =
     (let (r, w') = Write b w in run_handler tbl (k r) w')"
| "run_handler tbl (DoLog now st d n ratio msg h) w =
     run_handler tbl h (Log tbl now st d n ratio msg w)"
| "run_handler tbl (DoLogError now st err h) w = run_handler tbl h (LogError tbl now st err w)"
| "run_handler tbl (DoHijack k) w = (let (r, w') = Hijack w in run_handler tbl (k r) w')"
| "run_handler tbl (DoCompressionRatio k) w = run_handler tbl (k (CompressionRatio w)) w"

record LogMiddleware =
  "next" :: handler
  lm_logWriter :: "string list"

text \<open>
  \<^verbatim>\<open>ServeHTTP\<close> builds the wrapper, reads the clock, defers the finalizing call of
  \<^verbatim>\<open>Log\<close> and runs the handler. A deferred call runs when the function returns and when
  it panics; the panic goes on to the caller after it. \<open>elapsed\<close> is what
  \<^verbatim>\<open>time.Since(start)\<close> returns in the deferred call, \<open>finish\<close> what \<^verbatim>\<open>time.Now()\<close>
  returns inside \<^verbatim>\<open>Log\<close>. \<open>finalize\<close> is the deferred function literal.
\<close>

definition finalize :: "print_table \<Rightarrow> Time \<Rightarrow> go_int \<Rightarrow> LoggingResponseWriter \<Rightarrow> LoggingResponseWriter" where
  "finalize tbl finish elapsed lres =
     Log tbl finish (status lres) elapsed (sentBytes lres) (CompressionRatio lres) [] lres"

definition ServeHTTP ::
  "print_table \<Rightarrow> LogMiddleware \<Rightarrow> http_ResponseWriter \<Rightarrow> Request \<Rightarrow> go_int \<Rightarrow> Time
     \<Rightarrow> LoggingResponseWriter \<times> outcome" where
  "ServeHTTP tbl lm res r elapsed finish =
     (let lres = NewLoggingResponseWriter res r (lm_logWriter lm) in
      case run_handler tbl (next lm) lres of
        (lres', Returned) \<Rightarrow> (finalize tbl finish elapsed lres', Returned)
      | (lres', Panicked v) \<Rightarrow> (finalize tbl finish elapsed lres', Panicked v))"

text \<open>
  The field of the record that stands for the remote address: lines 78 to 81 of
  \<^verbatim>\<open>Log\<close>, the first piece of the address split at colons.
\<close>

definition remote_field :: "string \<Rightarrow> string" where
  "remote_field addr = (case Split addr CHR '':'' of [] \<Rightarrow> addr | x # _ \<Rightarrow> x)"

section \<open>Notions the claims are stated with\<close>

text \<open>
  A control character is a byte below \<^verbatim>\<open>0x20\<close> or the byte \<^verbatim>\<open>0x7F\<close>; the line feed is
  one. A text is one line when it holds one line feed, at its end.
\<close>

definition is_control :: "char \<Rightarrow> bool" where
  "is_control c = ((of_char c :: nat) < 0x20 \<or> (of_char c :: nat) = 0x7F)"

definition LF :: char where
  "LF = CHR 0x0A"

definition one_line :: "string \<Rightarrow> bool" where
  "one_line s = (count_list s LF = 1 \<and> last s = LF)"

text \<open>
  A reader of a record finds the end of a quoted field at the first double quote that no
  backslash escapes. \<open>closing_quote\<close> reads the text after the opening quote and
  returns the position of that quote.
\<close>

fun closing_quote :: "string \<Rightarrow> nat option" where
  "closing_quote [] = None"
| "closing_quote [c] = (if c = CHR 0x22 then Some 0 else None)"
| "closing_quote (c # d # cs) =
     (if c = CHR 0x22 then Some 0
      else if c = CHR 0x5C then map_option (\<lambda>n. n + 2) (closing_quote cs)
      else map_option Suc (closing_quote (d # cs)))"

definition plain :: "char \<Rightarrow> bool" where
  "plain c = (c \<noteq> CHR 0x22 \<and> c \<noteq> CHR 0x5C)"

text \<open>The shape \<^verbatim>\<open>\d+\.\d{2}\<close> of a ratio: digits, a point, two digits.\<close>

definition is_digit :: "char \<Rightarrow> bool" where
  "is_digit c = (c \<in> set ''0123456789'')"

definition ratio_format :: "string \<Rightarrow> bool" where
  "ratio_format s =
     (let k = length s - 3 in
      3 < length s \<and> list_all is_digit (take k s) \<and> s ! k = CHR ''.''
      \<and> is_digit (s ! (k + 1)) \<and> is_digit (s ! (k + 2)))"

text \<open>
  The host-only form of an address in the words of the specification: a trailing port
  suffix, the last colon with the digits that follow it, is stripped and the host is left
  as it is.
\<close>

definition strip_port_suffix :: "string \<Rightarrow> string" where
  "strip_port_suffix addr =
     (let port = takeWhile is_digit (rev addr) in
      if port \<noteq> [] \<and> length port < length addr \<and> rev addr ! length port = CHR '':''
      then take (length addr - length port - 1) addr
      else addr)"

text \<open>
  The chain of an error: the error, the error it wraps, and so on. The root cause, in the
  words of the specification, is the innermost error of the chain.
\<close>

primrec unwrap_chain :: "error \<Rightarrow> error list" where
  "unwrap_chain (ErrorString m) = [ErrorString m]"
| "unwrap_chain (Wrapped m e) = Wrapped m e # unwrap_chain e"

definition root_cause :: "error \<Rightarrow> error" where
  "root_cause err = last (unwrap_chain err)"

text \<open>
  Of the log sink as it stood before the request, \<open>lw\<close>, nothing is touched, and the
  request has added one text to it when the flag \<open>wrote\<close> is set and none otherwise.
\<close>

definition logged_at_most_once :: "string list \<Rightarrow> LoggingResponseWriter \<Rightarrow> bool" where
  "logged_at_most_once lw w =
     (take (length lw) (logWriter w) = lw
      \<and> length (logWriter w) = length lw + (if wrote w then 1 else 0))"

section \<open>Concrete requests, sinks and handlers\<close>

definition ascii_only :: print_table where
  \<comment> \<open>a table that holds no rune above \<^verbatim>\<open>0xFF\<close> printable\<close>
  "ascii_only r = False"

definition noon :: Time where
  "noon = \<lparr>year = 2024, month = 3, day = 9, hour = 12, minute = 0, second = 0,
            zone_offset = 0\<rparr>"

definition counting_sink :: http_ResponseWriter where
  \<comment> \<open>accepts every byte, cannot be hijacked\<close>
  "counting_sink =
     \<lparr>calls = [], write_reply = (\<lambda>cs b. (word_of_nat (length b), None)), hijacker = None\<rparr>"

definition broken_sink :: http_ResponseWriter where
  \<comment> \<open>accepts one byte and reports a failure; can be hijacked\<close>
  "broken_sink =
     \<lparr>calls = [], write_reply = (\<lambda>cs b. (1, Some (ErrorString ''broken pipe''))),
      hijacker = Some (\<lambda>cs. (Some (Conn 7), Some (ReadWriter 7), None))\<rparr>"

definition example_request :: Request where
  "example_request =
     \<lparr>RemoteAddr = ''192.0.2.7:51234'', Method = ''GET'', URL = ''/x'',
      UserAgent = ''test-agent''\<rparr>"

definition ipv6_request :: Request where
  \<comment> \<open>the remote address \<^verbatim>\<open>net/http\<close> records for a client that connects over IPv6\<close>
  "ipv6_request =
     \<lparr>RemoteAddr = ''[2001:db8::1]:51234'', Method = ''GET'', URL = ''/x'',
      UserAgent = ''test-agent''\<rparr>"

definition two_line_request :: Request where
  \<comment> \<open>a request built by hand, with a line feed in its method\<close>
  "two_line_request =
     \<lparr>RemoteAddr = ''192.0.2.7:51234'', Method = [CHR ''G'', CHR 0x0A, CHR ''X''], URL = ''/x'',
      UserAgent = ''test-agent''\<rparr>"

definition enospc :: error where
  "enospc = Wrapped ''upload failed'' (Wrapped ''disk full'' (ErrorString ''ENOSPC''))"

definition hello_handler :: handler where
  "hello_handler = DoWriteHeader 200 (DoWrite ''hello'' (\<lambda>r. Return))"

definition failing_handler :: handler where
  \<comment> \<open>writes ten bytes, reports two errors, logs by hand and panics\<close>
  "failing_handler =
     DoWrite ''0123456789'' (\<lambda>r. DoLogError noon 503 enospc
       (DoLogError noon 500 enospc (DoLog noon 200 0 10 ''-'' ''again'' (Panic ''boom''))))"

definition fresh :: LoggingResponseWriter where
  "fresh = NewLoggingResponseWriter counting_sink example_request []"

section \<open>What each operation leaves alone\<close>

lemma Log_fields [simp]:
  "ResponseWriter (Log tbl now st d n ratio msg w) = ResponseWriter w"
  "req (Log tbl now st d n ratio msg w) = req w"
  "status (Log tbl now st d n ratio msg w) = status w"
  "wroteBytes (Log tbl now st d n ratio msg w) = wroteBytes w"
  "sentBytes (Log tbl now st d n ratio msg w) = sentBytes w"
  "wrote (Log tbl now st d n ratio msg w) = True"
  by (simp_all add: Log_def Let_def)

lemma Log_when_wrote: "wrote w \<Longrightarrow> Log tbl now st d n ratio msg w = w"
  by (simp add: Log_def)

lemma Log_when_not_wrote:
  "\<not> wrote w \<Longrightarrow>
     logWriter (Log tbl now st d n ratio msg w)
       = logWriter w
         @ [log_record tbl now (remote_field (RemoteAddr (req w))) (Method (req w))
              (URL (req w)) st d n ratio (UserAgent (req w)) msg]"
  by (simp add: Log_def Let_def remote_field_def)

lemma LogError_fields [simp]:
  "req (LogError tbl now st err w) = req w"
  "status (LogError tbl now st err w) = st"
  "wroteBytes (LogError tbl now st err w) = wroteBytes w"
  "sentBytes (LogError tbl now st err w) = sentBytes w"
  "wrote (LogError tbl now st err w) = True"
  "logWriter (LogError tbl now st err w)
     = logWriter (Log tbl now st 0 0 ''-'' (unwrap_loop (Error err) err) w)"
  by (simp_all add: LogError_def Let_def)

lemma WriteHeader_fields [simp]:
  "req (WriteHeader st w) = req w"
  "status (WriteHeader st w) = st"
  "wroteBytes (WriteHeader st w) = wroteBytes w"
  "sentBytes (WriteHeader st w) = sentBytes w"
  "wrote (WriteHeader st w) = wrote w"
  "logWriter (WriteHeader st w) = logWriter w"
  by (simp_all add: WriteHeader_def)

lemma HeaderSet_fields [simp]:
  "req (HeaderSet k v w) = req w"
  "status (HeaderSet k v w) = status w"
  "wroteBytes (HeaderSet k v w) = wroteBytes w"
  "sentBytes (HeaderSet k v w) = sentBytes w"
  "wrote (HeaderSet k v w) = wrote w"
  "logWriter (HeaderSet k v w) = logWriter w"
  by (simp_all add: HeaderSet_def)

lemma Write_fields [simp]:
  "req (snd (Write b w)) = req w"
  "wroteBytes (snd (Write b w)) = wroteBytes w"
  "wrote (snd (Write b w)) = wrote w"
  "logWriter (snd (Write b w)) = logWriter w"
  by (simp_all add: Write_def sink_Write_def Let_def split: prod.splits)

lemma Hijack_fields [simp]:
  "req (snd (Hijack w)) = req w"
  "status (snd (Hijack w)) = status w"
  "wroteBytes (snd (Hijack w)) = wroteBytes w"
  "sentBytes (snd (Hijack w)) = sentBytes w"
  "wrote (snd (Hijack w)) = wrote w"
  "logWriter (snd (Hijack w)) = logWriter w"
  by (simp_all add: Hijack_def split: option.splits)

section \<open>Invariants of a request\<close>

lemma New_logged_at_most_once: "logged_at_most_once lw (NewLoggingResponseWriter res r lw)"
  by (simp add: logged_at_most_once_def NewLoggingResponseWriter_def)

lemma Log_keeps_once:
  "logged_at_most_once lw w \<Longrightarrow> logged_at_most_once lw (Log tbl now st d n ratio msg w)"
  by (cases "wrote w") (simp_all add: Log_when_wrote Log_when_not_wrote logged_at_most_once_def)

lemma run_handler_keeps_once:
  "logged_at_most_once lw w \<Longrightarrow> logged_at_most_once lw (fst (run_handler tbl h w))"
proof (induction h arbitrary: w)
  case (DoWrite b k)
  have "logged_at_most_once lw (snd (Write b w))"
    using DoWrite.prems by (simp add: logged_at_most_once_def)
  then show ?case
    using DoWrite.IH [OF rangeI] by (simp add: split_beta)
next
  case (DoHijack k)
  have "logged_at_most_once lw (snd (Hijack w))"
    using DoHijack.prems by (simp add: logged_at_most_once_def)
  then show ?case
    using DoHijack.IH [OF rangeI] by (simp add: split_beta)
next
  case (DoLogError now st err h)
  have "logged_at_most_once lw (LogError tbl now st err w)"
    using Log_keeps_once [OF DoLogError.prems, of tbl now st 0 0 "''-''"
        "unwrap_loop (Error err) err"]
    by (simp add: logged_at_most_once_def)
  then show ?case using DoLogError.IH by simp
next
  case (DoLog now st d n ratio msg h)
  then show ?case using Log_keeps_once by simp
qed (simp_all add: logged_at_most_once_def)

lemma run_handler_wroteBytes: "wroteBytes (fst (run_handler tbl h w)) = wroteBytes w"
proof (induction h arbitrary: w)
  case (DoWrite b k)
  show ?case using DoWrite.IH [OF rangeI] by (simp add: split_beta)
next
  case (DoHijack k)
  show ?case using DoHijack.IH [OF rangeI] by (simp add: split_beta)
qed simp_all

lemma run_handler_req: "req (fst (run_handler tbl h w)) = req w"
proof (induction h arbitrary: w)
  case (DoWrite b k)
  show ?case using DoWrite.IH [OF rangeI] by (simp add: split_beta)
next
  case (DoHijack k)
  show ?case using DoHijack.IH [OF rangeI] by (simp add: split_beta)
qed simp_all

lemma ServeHTTP_unfold:
  "run_handler tbl (next lm) (NewLoggingResponseWriter res r (lm_logWriter lm)) = (w, out) \<Longrightarrow>
     ServeHTTP tbl lm res r elapsed finish
       = (Log tbl finish (status w) elapsed (sentBytes w) (CompressionRatio w) [] w, out)"
  by (cases out) (simp_all add: ServeHTTP_def finalize_def)

lemma ServeHTTP_keeps_once:
  "logged_at_most_once (lm_logWriter lm) (fst (ServeHTTP tbl lm res r elapsed finish))"
proof (cases "run_handler tbl (next lm) (NewLoggingResponseWriter res r (lm_logWriter lm))")
  case (Pair w out)
  then have "logged_at_most_once (lm_logWriter lm) w"
    using run_handler_keeps_once [OF New_logged_at_most_once [of "lm_logWriter lm" res r], of tbl "next lm"]
    by simp
  then show ?thesis
    by (simp add: ServeHTTP_unfold [OF Pair] Log_keeps_once)
qed

lemma ServeHTTP_wrote: "wrote (fst (ServeHTTP tbl lm res r elapsed finish))"
  by (cases "run_handler tbl (next lm) (NewLoggingResponseWriter res r (lm_logWriter lm))")
    (simp add: ServeHTTP_unfold)

lemma run_hello:
  "run_handler tbl hello_handler fresh
     = (fresh\<lparr>status := 200, sentBytes := 5,
               ResponseWriter := counting_sink\<lparr>calls := [SinkWriteHeader 200, SinkWrite ''hello'']\<rparr>\<rparr>,
        Returned)"
  by (simp add: hello_handler_def fresh_def NewLoggingResponseWriter_def Write_def
      WriteHeader_def sink_Write_def sink_WriteHeader_def counting_sink_def)

lemma CompressionRatio_wroteBytes_0: "wroteBytes w = 0 \<Longrightarrow> CompressionRatio w = ''-''"
  by (simp add: CompressionRatio_def)

section \<open>The unwrap loop and the error response\<close>

lemma unwrap_chain_unfold:
  "unwrap_chain err = err # (case Unwrap err of None \<Rightarrow> [] | Some e \<Rightarrow> unwrap_chain e)"
  by (cases err) simp_all

lemma unwrap_chain_not_empty: "unwrap_chain err \<noteq> []"
  by (cases err) simp_all

lemma root_cause_simps [simp]:
  "root_cause (ErrorString m) = ErrorString m"
  "root_cause (Wrapped m e) = root_cause e"
  by (simp_all add: root_cause_def unwrap_chain_not_empty)

lemma root_cause_bottom: "Unwrap (root_cause err) = None"
  by (induction err) simp_all

lemma unwrap_loop_root_cause: "unwrap_loop (Error err) err = Error (root_cause err)"
  by (induction err) simp_all

lemma http_Error_calls:
  "calls (http_Error s msg code)
     = calls s @ [SinkHeaderSet ''Content-Type'' ''text/plain; charset=utf-8'',
                  SinkHeaderSet ''X-Content-Type-Options'' ''nosniff'',
                  SinkWriteHeader code, SinkWrite (msg @ [CHR 0x0A])]"
  by (simp add: http_Error_def sink_HeaderSet_def sink_WriteHeader_def sink_Write_def Let_def)

lemma LogError_sink:
  "ResponseWriter (LogError tbl now st err w)
     = (if sentBytes w = 0
        then http_Error (ResponseWriter w) (Quote tbl (unwrap_loop (Error err) err)) st
        else ResponseWriter w)"
  by (simp add: LogError_def Let_def)

section \<open>Characters of the rendered fields\<close>

lemma LF_is_control: "is_control LF"
  by (simp add: is_control_def LF_def)

lemma lowerhex_length: "length lowerhex = 16"
  by (simp add: lowerhex_def)

lemma lowerhex_nth: "k < 16 \<Longrightarrow> lowerhex ! k \<in> set lowerhex"
  by (rule nth_mem) (simp add: lowerhex_length)

lemma lowerhex_plain:
  "c \<in> set lowerhex \<Longrightarrow> \<not> is_control c \<and> c \<noteq> CHR 0x22 \<and> c \<noteq> CHR 0x5C"
  by (auto simp add: lowerhex_def is_control_def)

lemma hex_digits_in_lowerhex: "c \<in> set (hex_digits k r) \<Longrightarrow> c \<in> set lowerhex"
  by (auto simp add: hex_digits_def intro: lowerhex_nth)

lemma digits_in_lowerhex: "c \<in> set (digits n) \<Longrightarrow> c \<in> set lowerhex"
proof (induction n rule: digits.induct)
  case (1 n)
  show ?case
  proof (cases "n < 10")
    case True
    then show ?thesis using "1.prems" lowerhex_nth [of n] by (simp add: digits.simps)
  next
    case False
    then show ?thesis
      using "1.prems" "1.IH" lowerhex_nth [of "n mod 10"]
      by (subst (asm) digits.simps) auto
  qed
qed

lemma digits_not_empty: "digits n \<noteq> []"
  by (subst digits.simps) simp

lemma AppendRune_printable:
  assumes "IsPrint tbl r" and "c \<in> set (AppendRune r)"
  shows "\<not> is_control c"
proof (cases "r \<le> 0x7F")
  case True
  then have "0x20 \<le> r \<and> r \<le> 0x7E"
    using assms(1) by (simp add: IsPrint_def split: if_splits)
  then show ?thesis
    using assms(2) True by (simp add: AppendRune_def is_control_def)
next
  case False
  then have "(0x80::nat) \<le> of_char c"
    using assms(2) by (auto simp add: AppendRune_def Let_def RuneError_def split: if_splits)
  then show ?thesis by (simp add: is_control_def)
qed

lemma appendEscapedRune_no_control:
  assumes "c \<in> set (appendEscapedRune tbl r)"
  shows "\<not> is_control c"
proof (cases "r = 0x22 \<or> r = 0x5C")
  case True
  then show ?thesis
    using assms by (auto simp add: appendEscapedRune_def is_control_def)
next
  case quote: False
  show ?thesis
  proof (cases "IsPrint tbl r")
    case True
    then show ?thesis
      using assms quote AppendRune_printable [of tbl r c] by (simp add: appendEscapedRune_def)
  next
    case False
    have plain: "\<not> is_control CHR 0x5C" "\<not> is_control CHR ''a''" "\<not> is_control CHR ''b''"
      "\<not> is_control CHR ''f''" "\<not> is_control CHR ''n''" "\<not> is_control CHR ''r''"
      "\<not> is_control CHR ''t''" "\<not> is_control CHR ''v''" "\<not> is_control CHR ''x''"
      "\<not> is_control CHR ''u''" "\<not> is_control CHR ''U''"
      by (simp_all add: is_control_def)
    have hex: "\<not> is_control d" if "d \<in> set (hex_digits k n)" for d k n
      using that hex_digits_in_lowerhex lowerhex_plain by blast
    show ?thesis
      using assms quote False plain hex
      by (auto simp add: appendEscapedRune_def Let_def split: if_splits)
  qed
qed

lemma quote_body_no_control: "c \<in> set (quote_body tbl s) \<Longrightarrow> \<not> is_control c"
proof (induction tbl s rule: quote_body.induct)
  case (1 tbl)
  then show ?case by simp
next
  case (2 tbl b bs)
  define rw where "rw = (if (of_char b :: nat) \<ge> 0x80 then DecodeRuneInString (b # bs)
                          else (of_char b, 1))"
  show ?case
  proof (cases "snd rw = 1 \<and> fst rw = RuneError")
    case True
    then have "c \<in> set ([CHR 0x5C, CHR ''x''] @ hex_digits 2 (of_char b)) \<or> c \<in> set (quote_body tbl bs)"
      using "2.prems" by (auto simp add: rw_def Let_def)
    moreover have "\<not> is_control d" if "d \<in> set ([CHR 0x5C, CHR ''x''] @ hex_digits 2 (of_char b))" for d
      using that hex_digits_in_lowerhex [of d 2 "of_char b"] lowerhex_plain [of d]
      by (auto simp add: is_control_def)
    ultimately show ?thesis
      using "2.IH"(1) [OF rw_def] True by blast
  next
    case False
    then have "c \<in> set (appendEscapedRune tbl (fst rw))
               \<or> c \<in> set (quote_body tbl (drop (snd rw - 1) bs))"
      using "2.prems" by (auto simp add: rw_def Let_def)
    then show ?thesis
      using "2.IH"(2) [OF rw_def] False appendEscapedRune_no_control by blast
  qed
qed

lemma Quote_no_control: "c \<in> set (Quote tbl s) \<Longrightarrow> \<not> is_control c"
  using quote_body_no_control [of c tbl s] by (auto simp add: Quote_def is_control_def)

section \<open>A quoted field ends at its closing quote\<close>

lemma closing_quote_Cons_plain:
  "plain c \<Longrightarrow> closing_quote (c # t) = map_option Suc (closing_quote t)"
  by (cases t) (simp_all add: plain_def)

lemma closing_quote_plain:
  "list_all plain xs \<Longrightarrow>
     closing_quote (xs @ t) = map_option (\<lambda>n. n + length xs) (closing_quote t)"
proof (induction xs)
  case Nil
  show ?case by (simp add: option.map_ident)
next
  case (Cons x xs)
  then show ?case
    by (simp add: closing_quote_Cons_plain option.map_comp comp_def)
qed

lemma closing_quote_escape:
  "list_all plain xs \<Longrightarrow>
     closing_quote (CHR 0x5C # c # xs @ t)
       = map_option (\<lambda>n. n + length (CHR 0x5C # c # xs)) (closing_quote t)"
  by (simp add: closing_quote_plain option.map_comp comp_def add.commute add.left_commute)

lemma hex_digits_plain: "list_all plain (hex_digits k r)"
  using hex_digits_in_lowerhex lowerhex_plain by (auto simp add: list_all_iff plain_def)

lemma AppendRune_plain:
  assumes "r \<noteq> 0x22" and "r \<noteq> 0x5C"
  shows "list_all plain (AppendRune r)"
proof (cases "r \<le> 0x7F")
  case True
  then show ?thesis
    using assms by (simp add: AppendRune_def plain_def char_of_eq_iff take_bit_eq_mod)
next
  case False
  have "plain c" if "c \<in> set (AppendRune r)" for c
  proof -
    have "(0x80::nat) \<le> of_char c"
      using that False by (auto simp add: AppendRune_def Let_def RuneError_def split: if_splits)
    then show ?thesis by (auto simp add: plain_def)
  qed
  then show ?thesis by (simp add: list_all_iff)
qed

lemma appendEscapedRune_closed:
  "closing_quote (appendEscapedRune tbl r @ t)
     = map_option (\<lambda>n. n + length (appendEscapedRune tbl r)) (closing_quote t)"
proof (cases "r = 0x22 \<or> r = 0x5C")
  case True
  then show ?thesis
    using closing_quote_escape [of "[]" "char_of r" t] by (simp add: appendEscapedRune_def)
next
  case quote: False
  show ?thesis
  proof (cases "IsPrint tbl r")
    case True
    then show ?thesis
      using quote closing_quote_plain [OF AppendRune_plain, of r t]
      by (simp add: appendEscapedRune_def)
  next
    case False
    have two: "closing_quote ([CHR 0x5C, c] @ t) = map_option (\<lambda>n. n + length [CHR 0x5C, c]) (closing_quote t)"
      for c
      using closing_quote_escape [of "[]" c t] by simp
    have hex: "closing_quote (([CHR 0x5C, c] @ hex_digits k n) @ t)
                 = map_option (\<lambda>m. m + length ([CHR 0x5C, c] @ hex_digits k n)) (closing_quote t)"
      for c k n
      using closing_quote_escape [OF hex_digits_plain, of c k n t] by simp
    show ?thesis
      unfolding appendEscapedRune_def Let_def
      using quote False
      by (simp only: if_False if_True two hex split: if_splits) (simp add: two hex)
  qed
qed


lemma quote_body_closed:
  "closing_quote (quote_body tbl s @ t)
     = map_option (\<lambda>n. n + length (quote_body tbl s)) (closing_quote t)"
proof (induction tbl s rule: quote_body.induct)
  case (1 tbl)
  show ?case by (simp add: option.map_ident)
next
  case (2 tbl b bs)
  define rw where "rw = (if (of_char b :: nat) \<ge> 0x80 then DecodeRuneInString (b # bs)
                          else (of_char b, 1))"
  show ?case
  proof (cases "snd rw = 1 \<and> fst rw = RuneError")
    case True
    have body: "quote_body tbl (b # bs)
                  = ([CHR 0x5C, CHR ''x''] @ hex_digits 2 (of_char b)) @ quote_body tbl bs"
      using True by (simp add: rw_def Let_def)
    show ?thesis
      unfolding body
      using closing_quote_escape [OF hex_digits_plain, of "CHR ''x''" 2 "of_char b"
          "quote_body tbl bs @ t"] "2.IH"(1) [OF rw_def] True
      by (simp add: option.map_comp comp_def ac_simps)
  next
    case False
    have body: "quote_body tbl (b # bs)
                  = appendEscapedRune tbl (fst rw) @ quote_body tbl (drop (snd rw - 1) bs)"
      using False by (auto simp add: rw_def Let_def)
    show ?thesis
      unfolding body
      using appendEscapedRune_closed [of tbl "fst rw" "quote_body tbl (drop (snd rw - 1) bs) @ t"]
        "2.IH"(2) [OF rw_def] False
      by (simp add: option.map_comp comp_def ac_simps)
  qed
qed

lemma Quote_closes_at_its_end:
  "closing_quote (tl (Quote tbl s) @ rest) = Some (length (quote_body tbl s))"
  using quote_body_closed [of tbl s "CHR 0x22 # rest"]
  by (cases rest) (simp_all add: Quote_def)

lemma Quote_length: "length (Quote tbl s) = length (quote_body tbl s) + 2"
  by (simp add: Quote_def)

section \<open>Line feeds of a record\<close>

lemma digits_no_control: "c \<in> set (digits n) \<Longrightarrow> \<not> is_control c"
  using digits_in_lowerhex lowerhex_plain by blast

lemma appendInt_no_control: "c \<in> set (appendInt x k) \<Longrightarrow> \<not> is_control c"
  using digits_no_control [of c "nat \<bar>x\<bar>"]
  by (auto simp add: appendInt_def Let_def is_control_def split: if_splits)

lemma format_int_no_control: "c \<in> set (format_int i) \<Longrightarrow> \<not> is_control c"
  using digits_no_control [of c] by (auto simp add: format_int_def is_control_def split: if_splits)

lemma fmt_d_no_control: "c \<in> set (fmt_d x) \<Longrightarrow> \<not> is_control c"
  by (simp add: fmt_d_def format_int_no_control)

lemma format_RFC3339_no_control: "c \<in> set (format_RFC3339 t) \<Longrightarrow> \<not> is_control c"
proof -
  have lit: "\<not> is_control CHR ''-''" "\<not> is_control CHR ''T''" "\<not> is_control CHR '':''"
    "\<not> is_control CHR ''Z''" "\<not> is_control CHR ''+''"
    by (simp_all add: is_control_def)
  assume "c \<in> set (format_RFC3339 t)"
  then show ?thesis
    using lit appendInt_no_control [of c]
    by (auto simp add: format_RFC3339_def Let_def split: if_splits)
qed

lemma no_LF:
  "(\<And>c. c \<in> set s \<Longrightarrow> \<not> is_control c) \<Longrightarrow> count_list s LF = 0"
  using LF_is_control by (auto simp add: count_list_0_iff)

lemma count_LF_simps [simp]:
  "count_list (format_RFC3339 t) LF = 0"
  "count_list (fmt_d x) LF = 0"
  "count_list (Quote tbl s) LF = 0"
  by (rule no_LF, erule format_RFC3339_no_control, rule no_LF, erule fmt_d_no_control,
      rule no_LF, erule Quote_no_control)

lemma log_record_count_LF:
  "count_list (log_record tbl now ra m u st d n ratio ua msg) LF
     = count_list ra LF + count_list m LF + count_list u LF + count_list ratio LF + 1"
  by (simp add: log_record_def) (simp add: LF_def)

lemma log_record_last: "last (log_record tbl now ra m u st d n ratio ua msg) = LF"
  by (simp add: log_record_def LF_def)

lemma Split_takeWhile:
  "Split s sep \<noteq> [] \<and> hd (Split s sep) = takeWhile (\<lambda>c. c \<noteq> sep) s"
  by (induction s) (auto split: list.splits)

lemma remote_field_takeWhile: "remote_field addr = takeWhile (\<lambda>c. c \<noteq> CHR '':'') addr"
  using Split_takeWhile [of addr "CHR '':''"]
  by (cases "Split addr CHR '':''") (simp_all add: remote_field_def)

lemma remote_field_host_port:
  "CHR '':'' \<notin> set host \<Longrightarrow> remote_field (host @ CHR '':'' # port) = host"
  by (simp add: remote_field_takeWhile takeWhile_append)

lemma count_remote_field: "count_list addr c = 0 \<Longrightarrow> count_list (remote_field addr) c = 0"
  by (auto simp add: remote_field_takeWhile count_list_0_iff dest: set_takeWhileD)

lemma log_record_text:
  "log_record tbl now ra m u st d n ratio ua msg
     = format_RFC3339 now @ '' '' @ ra @ '' '' @ m @ '' '' @ [CHR 0x22] @ u @ [CHR 0x22] @ '' ''
       @ fmt_d st @ '' '' @ fmt_d (Milliseconds d) @ '' '' @ fmt_d n @ '' '' @ ratio @ '' ''
       @ Quote tbl ua @ '' '' @ Quote tbl msg @ [LF]"
  by (simp add: log_record_def LF_def)

section \<open>The rendering of a ratio\<close>

lemma lowerhex_decimal: "k < 10 \<Longrightarrow> is_digit (lowerhex ! k)"
proof -
  assume "k < 10"
  then have "lowerhex ! k = ''0123456789'' ! k"
    by (simp add: lowerhex_def nth_Cons')
  moreover have "''0123456789'' ! k \<in> set ''0123456789''"
    using \<open>k < 10\<close> by (intro nth_mem) simp
  ultimately show ?thesis by (simp only: is_digit_def)
qed

lemma digits_decimal: "list_all is_digit (digits n)"
proof (induction n rule: digits.induct)
  case (1 n)
  show ?case
  proof (cases "n < 10")
    case True
    then show ?thesis by (simp add: digits.simps lowerhex_decimal)
  next
    case False
    then show ?thesis
      using "1.IH" by (subst digits.simps) (simp add: lowerhex_decimal)
  qed
qed

lemma digits_lt_10: "n < 10 \<Longrightarrow> digits n = [lowerhex ! n]"
  by (simp add: digits.simps)

lemma digits_lt_100: "10 \<le> n \<Longrightarrow> n < 100 \<Longrightarrow> digits n = [lowerhex ! (n div 10), lowerhex ! (n mod 10)]"
  by (subst digits.simps) (simp add: digits_lt_10)

lemma appendInt_two:
  assumes "0 \<le> x" and "x < 100"
  shows "\<exists>d1 d2. appendInt x 2 = [d1, d2] \<and> is_digit d1 \<and> is_digit d2"
proof (cases "x < 10")
  case True
  then have "appendInt x 2 = [CHR ''0'', lowerhex ! nat x]"
    using assms by (simp add: appendInt_def digits_lt_10)
  moreover have "is_digit CHR ''0''" by (simp add: is_digit_def)
  moreover have "is_digit (lowerhex ! nat x)" using True assms by (simp add: lowerhex_decimal)
  ultimately show ?thesis by simp
next
  case False
  then have "appendInt x 2 = [lowerhex ! (nat x div 10), lowerhex ! (nat x mod 10)]"
    using assms by (simp add: appendInt_def digits_lt_100)
  moreover have "is_digit (lowerhex ! (nat x div 10))" using assms by (simp add: lowerhex_decimal)
  moreover have "is_digit (lowerhex ! (nat x mod 10))" by (simp add: lowerhex_decimal)
  ultimately show ?thesis by simp
qed

lemma fmt_2f_has_point: "CHR ''.'' \<in> set (fmt_2f v)"
  by (simp add: fmt_2f_def Let_def)

lemma fmt_2f_not_sentinel: "fmt_2f v \<noteq> ''-''"
  using fmt_2f_has_point [of v] by auto

lemma fmt_2f_format:
  assumes "0 \<le> v"
  shows "ratio_format (fmt_2f v)"
proof -
  define r where "r = round_half_even (\<bar>v\<bar> * 100)"
  obtain d1 d2 where frac: "appendInt (r mod 100) 2 = [d1, d2]" "is_digit d1" "is_digit d2"
    using appendInt_two [of "r mod 100"] by auto
  define ds where "ds = digits (nat (r div 100))"
  have shape: "fmt_2f v = ds @ [CHR ''.'', d1, d2]"
    using assms frac by (simp add: fmt_2f_def Let_def r_def ds_def)
  have "ds \<noteq> []" and "list_all is_digit ds"
    by (simp_all add: ds_def digits_not_empty digits_decimal)
  then show ?thesis
    using frac(2,3) by (cases ds) (simp_all add: shape ratio_format_def nth_append)
qed

lemma round_half_even_nonneg: "0 \<le> q \<Longrightarrow> 0 \<le> round_half_even q"
  by (auto simp add: round_half_even_def Let_def)

lemma pow2_pos: "0 < pow2 e"
  by (simp add: pow2_def)

lemma round_float64_nonneg: "0 \<le> q \<Longrightarrow> 0 \<le> round_float64 q"
  using pow2_pos [of "ilog2 \<bar>q\<bar> - 52"]
  by (auto simp add: round_float64_def Let_def intro!: mult_nonneg_nonneg round_half_even_nonneg
      divide_nonneg_pos)

lemma float64_nonneg: "0 \<le> sint a \<Longrightarrow> 0 \<le> float64 a"
  unfolding float64_def by (rule round_float64_nonneg) (simp only: of_int_0_le_iff)

lemma float64_quotient_nonneg:
  "0 \<le> sint a \<Longrightarrow> 0 \<le> sint b \<Longrightarrow> 0 \<le> float64_div (float64 a) (float64 b)"
  unfolding float64_div_def
  by (rule round_float64_nonneg) (simp add: float64_nonneg)

section \<open>The model of \<^verbatim>\<open>float64\<close> rounds to the nearest value of 53 bits\<close>

text \<open>
  What \<open>round_float64\<close> returns for a positive rational is a multiple \<open>m\<close> of the unit
  in the last place with \<open>2 ^ 52 \<le> m \<le> 2 ^ 53\<close>, at most half a unit away; a tie goes to
  the even multiple.
\<close>

lemma bit_length_bounds:
  "0 < n \<Longrightarrow> 2 ^ (bit_length n - 1) \<le> n \<and> n < 2 ^ bit_length n"
proof (induction n rule: bit_length.induct)
  case (1 n)
  show ?case
  proof (cases "n div 2 = 0")
    case True
    then have "n = 1" using "1.prems" by linarith
    then show ?thesis by (simp add: bit_length.simps)
  next
    case False
    then have IH: "2 ^ (bit_length (n div 2) - 1) \<le> n div 2" "n div 2 < 2 ^ bit_length (n div 2)"
      using "1.IH" "1.prems" by auto
    have pos: "0 < bit_length (n div 2)"
      using False by (subst bit_length.simps) simp
    have bl: "bit_length n = Suc (bit_length (n div 2))"
      using "1.prems" by (subst bit_length.simps) simp
    define k where "k = bit_length (n div 2)"
    have half: "2 * (2::nat) ^ (k - 1) = 2 ^ k"
      using pos by (cases k) (simp_all add: k_def)
    have low: "(2::nat) ^ k \<le> n"
      using IH(1) half unfolding k_def by linarith
    have high: "n < 2 * (2::nat) ^ k"
      using IH(2) unfolding k_def by linarith
    show ?thesis
      using low high by (simp add: bl k_def)
  qed
qed

lemma pow2_powi: "pow2 e = 2 powi e"
  by (simp add: pow2_def power_int_def inverse_eq_divide power_one_over)

lemma pow2_add: "pow2 (a + b) = pow2 a * pow2 b"
  by (simp add: pow2_powi power_int_add)

lemma pow2_nat: "pow2 (int k) = 2 ^ k"
  by (simp add: pow2_def)

lemma ilog2_bounds:
  assumes "0 < q"
  shows "pow2 (ilog2 q) \<le> q \<and> q < pow2 (ilog2 q + 1)"
proof -
  obtain a b where ab: "quotient_of q = (a, b)" by (cases "quotient_of q")
  have b: "0 < b" using ab quotient_of_denom_pos by blast
  have q: "q = of_int a / of_int b" using ab quotient_of_div by blast
  have a: "0 < a" using assms b q by (simp add: zero_less_divide_iff)
  define la where "la = bit_length (nat a)"
  define lb where "lb = bit_length (nat b)"
  define e where "e = int la - int lb"
  have A: "2 ^ (la - 1) \<le> nat a" "nat a < 2 ^ la"
    using bit_length_bounds [of "nat a"] a by (simp_all add: la_def)
  have B: "2 ^ (lb - 1) \<le> nat b" "nat b < 2 ^ lb"
    using bit_length_bounds [of "nat b"] b by (simp_all add: lb_def)
  have la: "0 < la" using a by (subst la_def, subst bit_length.simps) simp
  have lb: "0 < lb" using b by (subst lb_def, subst bit_length.simps) simp
  have ra: "(2::rat) ^ (la - 1) \<le> of_int a" "(of_int a :: rat) < 2 ^ la"
  proof -
    have "(of_nat (2 ^ (la - 1)) :: rat) \<le> of_nat (nat a)" using A(1) of_nat_le_iff by blast
    then show "(2::rat) ^ (la - 1) \<le> of_int a" using a by simp
    have "(of_nat (nat a) :: rat) < of_nat (2 ^ la)" using A(2) of_nat_less_iff by blast
    then show "(of_int a :: rat) < 2 ^ la" using a by simp
  qed
  have rb: "(2::rat) ^ (lb - 1) \<le> of_int b" "(of_int b :: rat) < 2 ^ lb"
  proof -
    have "(of_nat (2 ^ (lb - 1)) :: rat) \<le> of_nat (nat b)" using B(1) of_nat_le_iff by blast
    then show "(2::rat) ^ (lb - 1) \<le> of_int b" using b by simp
    have "(of_nat (nat b) :: rat) < of_nat (2 ^ lb)" using B(2) of_nat_less_iff by blast
    then show "(of_int b :: rat) < 2 ^ lb" using b by simp
  qed
  have bpos: "(0::rat) < of_int b" using b by simp
  have upper: "q < pow2 (e + 1)"
  proof -
    have "of_int a < (2::rat) ^ la" by (rule ra(2))
    also have "(2::rat) ^ la = pow2 (e + 1) * 2 ^ (lb - 1)"
    proof -
      have "int la = (e + 1) + int (lb - 1)" using lb by (simp add: e_def)
      then have "pow2 (int la) = pow2 (e + 1) * pow2 (int (lb - 1))" by (simp only: pow2_add)
      then show ?thesis by (simp add: pow2_nat)
    qed
    also have "\<dots> \<le> pow2 (e + 1) * of_int b"
      using rb(1) by (simp add: pow2_powi mult_left_mono)
    finally show ?thesis using bpos by (simp add: q pos_divide_less_eq)
  qed
  have lower: "pow2 (e - 1) < q"
  proof -
    have "pow2 (e - 1) * of_int b < pow2 (e - 1) * 2 ^ lb"
      using rb(2) by (simp add: pow2_powi)
    also have "pow2 (e - 1) * 2 ^ lb = (2::rat) ^ (la - 1)"
    proof -
      have "int (la - 1) = (e - 1) + int lb" using la by (simp add: e_def)
      then have "pow2 (int (la - 1)) = pow2 (e - 1) * pow2 (int lb)" by (simp only: pow2_add)
      then show ?thesis by (simp add: pow2_nat)
    qed
    also have "\<dots> \<le> of_int a" by (rule ra(1))
    finally show ?thesis using bpos by (simp add: q pos_less_divide_eq)
  qed
  have il: "ilog2 q = (if pow2 e \<le> q then e else e - 1)"
    by (simp add: ilog2_def ab la_def lb_def e_def Let_def)
  show ?thesis
    using upper lower by (auto simp add: il)
qed


lemma round_half_even_near: "\<bar>of_int (round_half_even q) - q\<bar> \<le> 1 / 2"
proof -
  have "of_int \<lfloor>q\<rfloor> \<le> q" "q < of_int \<lfloor>q\<rfloor> + 1" by linarith+
  then show ?thesis
    by (auto simp add: round_half_even_def Let_def abs_le_iff)
qed

lemma round_half_even_tie: "q - of_int \<lfloor>q\<rfloor> = 1 / 2 \<Longrightarrow> even (round_half_even q)"
  by (simp add: round_half_even_def Let_def)

lemma round_half_even_mono: "of_int k \<le> q \<Longrightarrow> k \<le> round_half_even q"
proof -
  assume "of_int k \<le> q"
  then have "k \<le> \<lfloor>q\<rfloor>" by (simp add: le_floor_iff)
  then show ?thesis by (auto simp add: round_half_even_def Let_def)
qed

lemma round_half_even_upper: "q \<le> of_int k \<Longrightarrow> round_half_even q \<le> k"
proof -
  assume le: "q \<le> of_int k"
  show ?thesis
  proof (cases "q = of_int k")
    case True
    then show ?thesis by (simp add: round_half_even_def Let_def)
  next
    case False
    then have "q < of_int k" using le by simp
    then have "\<lfloor>q\<rfloor> < k" by (simp add: floor_less_iff)
    then show ?thesis by (auto simp add: round_half_even_def Let_def)
  qed
qed

lemma round_float64_nearest:
  assumes "0 < q"
  shows "\<exists>m. round_float64 q = of_int m * pow2 (ilog2 q - 52)
             \<and> 2 ^ 52 \<le> m \<and> m \<le> 2 ^ 53
             \<and> \<bar>round_float64 q - q\<bar> \<le> pow2 (ilog2 q - 52) / 2"
proof -
  define ulp where "ulp = pow2 (ilog2 q - 52)"
  define m where "m = round_half_even (q / ulp)"
  have ulp: "0 < ulp" by (simp add: ulp_def pow2_def)
  have val: "round_float64 q = of_int m * ulp"
    using assms by (simp add: round_float64_def Let_def ulp_def m_def)
  have lo: "pow2 52 * ulp \<le> q"
    using ilog2_bounds [OF assms] pow2_add [of 52 "ilog2 q - 52"] by (simp add: ulp_def)
  have hi: "q < pow2 53 * ulp"
    using ilog2_bounds [OF assms] pow2_add [of 53 "ilog2 q - 52"]
    by (simp add: ulp_def add.commute)
  have "of_int (2 ^ 52) \<le> q / ulp"
    using lo ulp by (simp add: pos_le_divide_eq pow2_def)
  then have m_lo: "2 ^ 52 \<le> m" unfolding m_def by (rule round_half_even_mono)
  have "q / ulp \<le> of_int (2 ^ 53)"
    using hi ulp by (simp add: pos_divide_le_eq pow2_def)
  then have m_hi: "m \<le> 2 ^ 53" unfolding m_def by (rule round_half_even_upper)
  have "\<bar>of_int m - q / ulp\<bar> \<le> 1 / 2"
    unfolding m_def by (rule round_half_even_near)
  then have "\<bar>of_int m - q / ulp\<bar> * ulp \<le> 1 / 2 * ulp"
    using ulp by (simp add: mult_right_mono)
  moreover have "\<bar>of_int m - q / ulp\<bar> * ulp = \<bar>of_int m * ulp - q\<bar>"
  proof -
    have "(of_int m - q / ulp) * ulp = of_int m * ulp - q"
      using ulp by (simp add: left_diff_distrib)
    moreover have "\<bar>of_int m - q / ulp\<bar> * ulp = \<bar>(of_int m - q / ulp) * ulp\<bar>"
      using ulp by (simp add: abs_mult)
    ultimately show ?thesis by simp
  qed
  ultimately have "\<bar>round_float64 q - q\<bar> \<le> ulp / 2"
    by (simp add: val)
  then show ?thesis
    using val m_lo m_hi by (auto simp add: ulp_def)
qed

lemma round_float64_minus: "round_float64 (- q) = - round_float64 q"
  by (simp add: round_float64_def Let_def)

section \<open>The claims\<close>

text \<open>
  Claim C1. Whatever the handler does with the wrapper, however often it calls
  \<^verbatim>\<open>Log\<close> and \<^verbatim>\<open>LogError\<close>, the request adds at most one text to the log sink while the
  handler runs, and exactly one by the time \<^verbatim>\<open>ServeHTTP\<close> is over. A call of
  \<^verbatim>\<open>Log\<close> on a writer that has not logged sets the flag and adds one text; on a writer
  that has logged it changes nothing.
\<close>

theorem at_most_one_log_record:
  "logged_at_most_once lw (fst (run_handler tbl h (NewLoggingResponseWriter res r lw)))
   \<and> (let w' = fst (ServeHTTP tbl lm res r elapsed finish) in
        wrote w' \<and> take (length (lm_logWriter lm)) (logWriter w') = lm_logWriter lm
        \<and> length (logWriter w') = length (lm_logWriter lm) + 1)
   \<and> (\<not> wrote w \<longrightarrow>
        wrote (Log tbl now st d n ratio msg w)
        \<and> length (logWriter (Log tbl now st d n ratio msg w)) = length (logWriter w) + 1
        \<and> take (length (logWriter w)) (logWriter (Log tbl now st d n ratio msg w)) = logWriter w)
   \<and> (wrote w \<longrightarrow> Log tbl now st d n ratio msg w = w)"
proof -
  have during: "logged_at_most_once lw (fst (run_handler tbl h (NewLoggingResponseWriter res r lw)))"
    by (rule run_handler_keeps_once [OF New_logged_at_most_once])
  show ?thesis
    using during ServeHTTP_keeps_once [of lm tbl res r elapsed finish]
      ServeHTTP_wrote [of tbl lm res r elapsed finish]
    by (simp add: logged_at_most_once_def Log_when_wrote Log_when_not_wrote Let_def)
qed

theorem at_most_one_log_record_witness:
  "\<not> wrote fresh
   \<and> wrote (Log ascii_only noon 200 0 0 ''-'' [] fresh)
   \<and> length (logWriter (Log ascii_only noon 200 0 0 ''-'' [] fresh)) = 1
   \<and> Log ascii_only noon 500 0 0 ''-'' ''late'' (Log ascii_only noon 200 0 0 ''-'' [] fresh)
       = Log ascii_only noon 200 0 0 ''-'' [] fresh
   \<and> length (logWriter (fst (ServeHTTP ascii_only \<lparr>next = failing_handler, lm_logWriter = []\<rparr>
        counting_sink example_request 1500000 noon))) = 1"
  using at_most_one_log_record [of "[]" ascii_only failing_handler counting_sink example_request
      "\<lparr>next = failing_handler, lm_logWriter = []\<rparr>" 1500000 noon fresh noon 200 0 0 "''-''" "[]"]
    at_most_one_log_record [of "[]" ascii_only failing_handler counting_sink example_request
      "\<lparr>next = failing_handler, lm_logWriter = []\<rparr>" 1500000 noon
      "Log ascii_only noon 200 0 0 ''-'' [] fresh" noon 500 0 0 "''-''" "''late''"]
  by (simp add: fresh_def NewLoggingResponseWriter_def Let_def)

text \<open>
  Claim C2. Let the handler leave the wrapper in the state \<open>w\<close>, by returning or by
  panicking (\<open>out\<close>). Then \<^verbatim>\<open>ServeHTTP\<close> ends in the state that one call of \<^verbatim>\<open>Log\<close> with
  the status, the elapsed time, the sent bytes and the compression ratio of \<open>w\<close> and the
  empty message makes of \<open>w\<close>, and hands the same outcome to its caller. The writer has
  logged by then, and when the handler had not logged, the text of this call is the one
  the request added to the log sink.
\<close>

theorem ServeHTTP_finalizes_on_every_exit:
  assumes "run_handler tbl (next lm) (NewLoggingResponseWriter res r (lm_logWriter lm)) = (w, out)"
  shows "ServeHTTP tbl lm res r elapsed finish
           = (Log tbl finish (status w) elapsed (sentBytes w) (CompressionRatio w) [] w, out)
    \<and> wrote (fst (ServeHTTP tbl lm res r elapsed finish))
    \<and> (\<not> wrote w \<longrightarrow>
         logWriter (fst (ServeHTTP tbl lm res r elapsed finish))
           = lm_logWriter lm
             @ [log_record tbl finish (remote_field (RemoteAddr r)) (Method r) (URL r) (status w)
                  elapsed (sentBytes w) (CompressionRatio w) (UserAgent r) []])"
proof -
  have rq: "req w = r"
    using run_handler_req [of tbl "next lm" "NewLoggingResponseWriter res r (lm_logWriter lm)"] assms
    by (simp add: NewLoggingResponseWriter_def)
  have once: "logged_at_most_once (lm_logWriter lm) w"
    using run_handler_keeps_once [OF New_logged_at_most_once [of "lm_logWriter lm" res r], of tbl "next lm"]
      assms
    by simp
  have "logWriter w = lm_logWriter lm" if "\<not> wrote w"
    using once that take_all [of "logWriter w" "length (lm_logWriter lm)"]
    by (simp add: logged_at_most_once_def)
  then show ?thesis
    using rq by (simp add: ServeHTTP_unfold [OF assms] Log_when_not_wrote)
qed

theorem ServeHTTP_finalizes_on_every_exit_witness:
  "snd (ServeHTTP ascii_only \<lparr>next = failing_handler, lm_logWriter = []\<rparr> counting_sink
          example_request 1500000 noon) = Panicked ''boom''
   \<and> wrote (fst (ServeHTTP ascii_only \<lparr>next = failing_handler, lm_logWriter = []\<rparr> counting_sink
          example_request 1500000 noon))
   \<and> ServeHTTP ascii_only \<lparr>next = hello_handler, lm_logWriter = []\<rparr> counting_sink
          example_request 1500000 noon
       = (fresh\<lparr>status := 200, sentBytes := 5,
                 ResponseWriter :=
                   counting_sink\<lparr>calls := [SinkWriteHeader 200, SinkWrite ''hello'']\<rparr>,
                 wrote := True,
                 logWriter :=
                   [log_record ascii_only noon ''192.0.2.7'' ''GET'' ''/x'' 200 1500000 5 ''-''
                      ''test-agent'' []]\<rparr>,
          Returned)"
  using ServeHTTP_finalizes_on_every_exit
      [of ascii_only "\<lparr>next = failing_handler, lm_logWriter = []\<rparr>" counting_sink example_request
        "fst (run_handler ascii_only failing_handler fresh)"
        "snd (run_handler ascii_only failing_handler fresh)" 1500000 noon]
    ServeHTTP_finalizes_on_every_exit
      [of ascii_only "\<lparr>next = hello_handler, lm_logWriter = []\<rparr>" counting_sink example_request
        "fresh\<lparr>status := 200, sentBytes := 5,
               ResponseWriter := counting_sink\<lparr>calls := [SinkWriteHeader 200, SinkWrite ''hello'']\<rparr>\<rparr>"
        Returned 1500000 noon]
    run_hello [of ascii_only]
  by (simp add: fresh_def [symmetric])
    (simp add: failing_handler_def split_beta fresh_def NewLoggingResponseWriter_def
      CompressionRatio_def Log_def Let_def example_request_def)

text \<open>
  Claim C3. A call of \<^verbatim>\<open>Write\<close> on a writer whose status is 0 leaves the status 200,
  hands the bytes to the real sink, adds the count the sink reports to \<open>sentBytes\<close> and
  returns the sink's count and error as they are.
\<close>

theorem Write_counts_and_returns_verbatim:
  assumes "status w = 0"
  shows "fst (Write b w) = write_reply (ResponseWriter w) (calls (ResponseWriter w)) b
    \<and> status (snd (Write b w)) = 200
    \<and> sentBytes (snd (Write b w))
        = sentBytes w + fst (write_reply (ResponseWriter w) (calls (ResponseWriter w)) b)
    \<and> calls (ResponseWriter (snd (Write b w))) = calls (ResponseWriter w) @ [SinkWrite b]
    \<and> wroteBytes (snd (Write b w)) = wroteBytes w
    \<and> wrote (snd (Write b w)) = wrote w
    \<and> logWriter (snd (Write b w)) = logWriter w"
  using assms by (simp add: Write_def sink_Write_def split: prod.splits)

theorem Write_counts_and_returns_verbatim_witness:
  "status (NewLoggingResponseWriter broken_sink example_request []) = 0
   \<and> fst (Write ''hello'' (NewLoggingResponseWriter broken_sink example_request []))
       = (1, Some (ErrorString ''broken pipe''))
   \<and> status (snd (Write ''hello'' (NewLoggingResponseWriter broken_sink example_request []))) = 200
   \<and> sentBytes (snd (Write ''hello'' (NewLoggingResponseWriter broken_sink example_request []))) = 1"
  using Write_counts_and_returns_verbatim
          [of "NewLoggingResponseWriter broken_sink example_request []" "''hello''"]
  by (simp add: NewLoggingResponseWriter_def broken_sink_def)

text \<open>
  Claim C4. \<^verbatim>\<open>CompressionRatio\<close> returns the sentinel \<^verbatim>\<open>-\<close> exactly when \<open>sentBytes\<close>
  is 0, or \<open>wroteBytes\<close> is 0, or the two are equal, or the quotient of \<open>wroteBytes\<close>
  by \<open>sentBytes\<close> prints as \<^verbatim>\<open>0.00\<close>; in every other state it returns that quotient
  printed with two decimals. The counters count bytes: when neither is negative, what is
  returned in place of the sentinel has the shape \<^verbatim>\<open>\d+\.\d{2}\<close>.
\<close>

theorem CompressionRatio_sentinel_or_two_decimals:
  "(CompressionRatio w = ''-'' \<longleftrightarrow>
      sentBytes w = 0 \<or> wroteBytes w = 0 \<or> wroteBytes w = sentBytes w
      \<or> fmt_2f (float64_div (float64 (wroteBytes w)) (float64 (sentBytes w))) = ''0.00'')
   \<and> (CompressionRatio w \<noteq> ''-'' \<longrightarrow>
        CompressionRatio w = fmt_2f (float64_div (float64 (wroteBytes w)) (float64 (sentBytes w))))
   \<and> (0 \<le> sint (wroteBytes w) \<and> 0 \<le> sint (sentBytes w) \<and> CompressionRatio w \<noteq> ''-'' \<longrightarrow>
        ratio_format (CompressionRatio w))"
proof -
  have fmt: "0 \<le> sint (wroteBytes w) \<Longrightarrow> 0 \<le> sint (sentBytes w) \<Longrightarrow>
      ratio_format (fmt_2f (float64_div (float64 (wroteBytes w)) (float64 (sentBytes w))))"
    by (rule fmt_2f_format [OF float64_quotient_nonneg])
  show ?thesis
    using fmt fmt_2f_not_sentinel [of "float64_div (float64 (wroteBytes w)) (float64 (sentBytes w))"]
    by (auto simp add: CompressionRatio_def Let_def)
qed

theorem CompressionRatio_sentinel_or_two_decimals_witness:
  "CompressionRatio (fresh\<lparr>wroteBytes := 3, sentBytes := 2\<rparr>) = ''1.50''
   \<and> ratio_format ''1.50''
   \<and> CompressionRatio (fresh\<lparr>wroteBytes := 1, sentBytes := 1000\<rparr>) = ''-''
   \<and> CompressionRatio (fresh\<lparr>wroteBytes := 7, sentBytes := 7\<rparr>) = ''-''
   \<and> CompressionRatio (fresh\<lparr>wroteBytes := 201, sentBytes := 200\<rparr>) = ''1.00''"
proof -
  have e1: "fmt_2f (float64_div (float64 3) (float64 2)) = ''1.50''" by code_simp
  have e2: "fmt_2f (float64_div (float64 1) (float64 1000)) = ''0.00''" by code_simp
  have e3: "fmt_2f (float64_div (float64 201) (float64 200)) = ''1.00''" by code_simp
  show ?thesis
    using CompressionRatio_sentinel_or_two_decimals [of "fresh\<lparr>wroteBytes := 3, sentBytes := 2\<rparr>"]
      CompressionRatio_sentinel_or_two_decimals [of "fresh\<lparr>wroteBytes := 1, sentBytes := 1000\<rparr>"]
      CompressionRatio_sentinel_or_two_decimals [of "fresh\<lparr>wroteBytes := 7, sentBytes := 7\<rparr>"]
      CompressionRatio_sentinel_or_two_decimals [of "fresh\<lparr>wroteBytes := 201, sentBytes := 200\<rparr>"]
    by (simp add: e1 e2 e3)
qed

text \<open>
  Claim C5. For every error, however often it is wrapped, the message \<^verbatim>\<open>LogError\<close>
  hands to \<^verbatim>\<open>Log\<close> and, quoted, to \<^verbatim>\<open>http.Error\<close> is the message of the root cause:
  the innermost error of the chain, the one that wraps nothing.
\<close>

theorem LogError_reports_root_cause:
  "Unwrap (root_cause err) = None
   \<and> root_cause err \<in> set (unwrap_chain err)
   \<and> unwrap_loop (Error err) err = Error (root_cause err)
   \<and> logWriter (LogError tbl now st err w)
       = logWriter (Log tbl now st 0 0 ''-'' (Error (root_cause err)) w)
   \<and> (\<not> wrote w \<longrightarrow>
        logWriter (LogError tbl now st err w)
          = logWriter w
            @ [log_record tbl now (remote_field (RemoteAddr (req w))) (Method (req w))
                 (URL (req w)) st 0 0 ''-'' (UserAgent (req w)) (Error (root_cause err))])
   \<and> (sentBytes w = 0 \<longrightarrow>
        ResponseWriter (LogError tbl now st err w)
          = http_Error (ResponseWriter w) (Quote tbl (Error (root_cause err))) st)"
  using unwrap_chain_not_empty [of err]
  by (simp add: root_cause_bottom unwrap_loop_root_cause Log_when_not_wrote LogError_sink)
    (simp add: root_cause_def)

theorem LogError_reports_root_cause_witness:
  "Error (root_cause enospc) = ''ENOSPC''
   \<and> \<not> wrote fresh \<and> sentBytes fresh = 0
   \<and> logWriter (LogError ascii_only noon 500 enospc fresh)
       = [log_record ascii_only noon ''192.0.2.7'' ''GET'' ''/x'' 500 0 0 ''-'' ''test-agent''
            ''ENOSPC'']
   \<and> last (calls (ResponseWriter (LogError ascii_only noon 500 enospc fresh)))
       = SinkWrite (Quote ascii_only ''ENOSPC'' @ [CHR 0x0A])"
  using LogError_reports_root_cause [of enospc ascii_only noon 500 fresh]
  by (simp add: enospc_def fresh_def NewLoggingResponseWriter_def example_request_def
      remote_field_def http_Error_calls)

text \<open>
  Claim C6. \<^verbatim>\<open>LogError\<close> calls \<^verbatim>\<open>Log\<close> with the status, the duration 0, 0 bytes and the
  sentinel ratio, and leaves the status it was given in the writer. When \<open>sentBytes\<close> is 0
  at the call it sends the error response (the status and the quoted message) to the real
  sink; when \<open>sentBytes\<close> is not 0 the real sink is not touched.
\<close>

theorem LogError_answers_only_before_first_byte:
  "status (LogError tbl now st err w) = st
   \<and> wrote (LogError tbl now st err w)
   \<and> sentBytes (LogError tbl now st err w) = sentBytes w
   \<and> logWriter (LogError tbl now st err w)
       = logWriter (Log tbl now st 0 0 ''-'' (unwrap_loop (Error err) err) w)
   \<and> (\<not> wrote w \<longrightarrow>
        logWriter (LogError tbl now st err w)
          = logWriter w
            @ [log_record tbl now (remote_field (RemoteAddr (req w))) (Method (req w))
                 (URL (req w)) st 0 0 ''-'' (UserAgent (req w)) (unwrap_loop (Error err) err)])
   \<and> (sentBytes w = 0 \<longrightarrow>
        calls (ResponseWriter (LogError tbl now st err w))
          = calls (ResponseWriter w)
            @ [SinkHeaderSet ''Content-Type'' ''text/plain; charset=utf-8'',
               SinkHeaderSet ''X-Content-Type-Options'' ''nosniff'',
               SinkWriteHeader st,
               SinkWrite (Quote tbl (unwrap_loop (Error err) err) @ [CHR 0x0A])])
   \<and> (sentBytes w \<noteq> 0 \<longrightarrow> ResponseWriter (LogError tbl now st err w) = ResponseWriter w)"
  by (simp add: Log_when_not_wrote LogError_sink http_Error_calls)

theorem LogError_answers_only_before_first_byte_witness:
  "sentBytes fresh = 0
   \<and> calls (ResponseWriter (LogError ascii_only noon 500 enospc fresh))
       = [SinkHeaderSet ''Content-Type'' ''text/plain; charset=utf-8'',
          SinkHeaderSet ''X-Content-Type-Options'' ''nosniff'',
          SinkWriteHeader 500,
          SinkWrite (Quote ascii_only ''ENOSPC'' @ [CHR 0x0A])]
   \<and> status (LogError ascii_only noon 500 enospc fresh) = 500
   \<and> sentBytes (snd (Write ''0123456789'' fresh)) = 10
   \<and> \<not> wrote (snd (Write ''0123456789'' fresh))
   \<and> calls (ResponseWriter (LogError ascii_only noon 503 enospc (snd (Write ''0123456789'' fresh))))
       = [SinkWrite ''0123456789'']
   \<and> status (LogError ascii_only noon 503 enospc (snd (Write ''0123456789'' fresh))) = 503
   \<and> logWriter (LogError ascii_only noon 503 enospc (snd (Write ''0123456789'' fresh)))
       = [log_record ascii_only noon ''192.0.2.7'' ''GET'' ''/x'' 503 0 0 ''-'' ''test-agent''
            ''ENOSPC'']"
  using LogError_answers_only_before_first_byte [of ascii_only noon 500 enospc fresh]
    LogError_answers_only_before_first_byte
      [of ascii_only noon 503 enospc "snd (Write ''0123456789'' fresh)"]
  by (simp add: enospc_def fresh_def NewLoggingResponseWriter_def example_request_def
      remote_field_def counting_sink_def Write_def sink_Write_def)

text \<open>
  Claim C7. On a sink that does not implement \<^verbatim>\<open>http.Hijacker\<close>, \<^verbatim>\<open>Hijack\<close> returns no
  connection, no buffered reader and writer, and the error
  \<^verbatim>\<open>http.Hijacker not implemented\<close>, and touches nothing. On a sink that implements it,
  \<^verbatim>\<open>Hijack\<close> calls the sink and returns what the sink returns.
\<close>

theorem Hijack_needs_the_capability:
  "(hijacker (ResponseWriter w) = None \<longrightarrow>
      Hijack w = ((None, None, Some (ErrorString ''http.Hijacker not implemented'')), w))
   \<and> (\<forall>hj. hijacker (ResponseWriter w) = Some hj \<longrightarrow>
          fst (Hijack w) = hj (calls (ResponseWriter w))
          \<and> calls (ResponseWriter (snd (Hijack w))) = calls (ResponseWriter w) @ [SinkHijack])"
  by (simp add: Hijack_def)

theorem Hijack_needs_the_capability_witness:
  "hijacker (ResponseWriter (NewLoggingResponseWriter counting_sink example_request [])) = None
   \<and> fst (Hijack (NewLoggingResponseWriter counting_sink example_request []))
       = (None, None, Some (ErrorString ''http.Hijacker not implemented''))
   \<and> fst (Hijack (NewLoggingResponseWriter broken_sink example_request []))
       = (Some (Conn 7), Some (ReadWriter 7), None)"
  using Hijack_needs_the_capability [of "NewLoggingResponseWriter counting_sink example_request []"]
    Hijack_needs_the_capability [of "NewLoggingResponseWriter broken_sink example_request []"]
  by (simp add: NewLoggingResponseWriter_def broken_sink_def counting_sink_def)

text \<open>
  Claim C8, at the remote address of a client that connects over IPv6. The field of the
  record is the text before the first colon of the address, \<^verbatim>\<open>[2001\<close>, and not the
  host the address names, \<^verbatim>\<open>[2001:db8::1]\<close>, which stripping the port suffix leaves.
  For an IPv4 address the two agree.
\<close>

theorem Log_remote_field_of_an_IPv6_address:
  "remote_field ''[2001:db8::1]:51234'' = ''[2001''
   \<and> strip_port_suffix ''[2001:db8::1]:51234'' = ''[2001:db8::1]''
   \<and> logWriter (Log tbl now st d n ratio msg (NewLoggingResponseWriter res ipv6_request lw))
       = lw @ [log_record tbl now ''[2001'' ''GET'' ''/x'' st d n ratio ''test-agent'' msg]
   \<and> remote_field ''192.0.2.7:51234'' = ''192.0.2.7''
   \<and> strip_port_suffix ''192.0.2.7:51234'' = ''192.0.2.7''"
  by (simp add: remote_field_def strip_port_suffix_def is_digit_def Log_def Let_def
      NewLoggingResponseWriter_def ipv6_request_def)

text \<open>
  Claim C9, as the code has it. The record \<^verbatim>\<open>Log\<close> emits is the time, the remote
  field, the method, the URL between double quotes, the status, the duration in
  milliseconds, the byte count, the ratio, the quoted user agent and the quoted message,
  with one space between two fields and a line feed at the end. The two quoted fields
  hold no control character, so no line feed, and each ends at its own closing quote,
  whatever quotes and backslashes the user agent and the message hold. The remote field,
  the method, the URL and the ratio are printed as they are: the record has one line feed
  more than they have, and it is one line when they have none.
\<close>

theorem Log_record_layout:
  assumes "\<not> wrote w"
  shows "logWriter (Log tbl now st d n ratio msg w)
           = logWriter w
             @ [format_RFC3339 now @ '' '' @ remote_field (RemoteAddr (req w)) @ '' ''
                @ Method (req w) @ '' '' @ [CHR 0x22] @ URL (req w) @ [CHR 0x22] @ '' ''
                @ fmt_d st @ '' '' @ fmt_d (Milliseconds d) @ '' '' @ fmt_d n @ '' '' @ ratio
                @ '' '' @ Quote tbl (UserAgent (req w)) @ '' '' @ Quote tbl msg @ [LF]]
    \<and> list_all (\<lambda>c. \<not> is_control c) (Quote tbl (UserAgent (req w)) @ Quote tbl msg)
    \<and> closing_quote (tl (Quote tbl (UserAgent (req w))) @ rest)
        = Some (length (Quote tbl (UserAgent (req w))) - 2)
    \<and> closing_quote (tl (Quote tbl msg) @ rest) = Some (length (Quote tbl msg) - 2)
    \<and> count_list (last (logWriter (Log tbl now st d n ratio msg w))) LF
        = count_list (remote_field (RemoteAddr (req w))) LF + count_list (Method (req w)) LF
          + count_list (URL (req w)) LF + count_list ratio LF + 1
    \<and> (count_list (RemoteAddr (req w)) LF = 0 \<and> count_list (Method (req w)) LF = 0
         \<and> count_list (URL (req w)) LF = 0 \<and> count_list ratio LF = 0 \<longrightarrow>
          one_line (last (logWriter (Log tbl now st d n ratio msg w))))"
proof -
  have emitted: "logWriter (Log tbl now st d n ratio msg w)
      = logWriter w
        @ [log_record tbl now (remote_field (RemoteAddr (req w))) (Method (req w)) (URL (req w))
             st d n ratio (UserAgent (req w)) msg]"
    by (rule Log_when_not_wrote [OF assms])
  have quoted: "list_all (\<lambda>c. \<not> is_control c) (Quote tbl (UserAgent (req w)) @ Quote tbl msg)"
    using Quote_no_control by (auto simp add: list_all_iff)
  show ?thesis
    using quoted
    by (simp add: emitted log_record_count_LF log_record_last one_line_def count_remote_field
        Quote_closes_at_its_end Quote_length)
      (simp add: log_record_text)
qed

theorem Log_record_layout_witness:
  "\<not> wrote fresh
   \<and> logWriter (Log ascii_only noon 200 1500000 5 ''-'' [CHR ''a'', CHR 0x22, CHR 0x0A] fresh)
       = [''2024-03-09T12:00:00Z 192.0.2.7 GET '' @ [CHR 0x22] @ ''/x'' @ [CHR 0x22]
          @ '' 200 1 5 - '' @ [CHR 0x22] @ ''test-agent'' @ [CHR 0x22] @ '' ''
          @ [CHR 0x22, CHR ''a'', CHR 0x5C, CHR 0x22, CHR 0x5C, CHR ''n'', CHR 0x22, CHR 0x0A]]
   \<and> one_line (last (logWriter
        (Log ascii_only noon 200 1500000 5 ''-'' [CHR ''a'', CHR 0x22, CHR 0x0A] fresh)))"
proof -
  have ts: "format_RFC3339 noon = ''2024-03-09T12:00:00Z''" by code_simp
  have num: "fmt_d 200 = ''200''" "fmt_d (Milliseconds 1500000) = ''1''" "fmt_d 5 = ''5''"
    by code_simp+
  have ua: "Quote ascii_only ''test-agent'' = [CHR 0x22] @ ''test-agent'' @ [CHR 0x22]"
    by (simp add: Quote_def appendEscapedRune_def IsPrint_def AppendRune_def RuneError_def
        char_of_def bit_0)
  have msg: "Quote ascii_only [CHR ''a'', CHR 0x22, CHR 0x0A]
      = [CHR 0x22, CHR ''a'', CHR 0x5C, CHR 0x22, CHR 0x5C, CHR ''n'', CHR 0x22]"
    by (simp add: Quote_def appendEscapedRune_def IsPrint_def AppendRune_def RuneError_def
        char_of_def bit_0)
  have addr: "remote_field ''192.0.2.7:51234'' = ''192.0.2.7''"
    by (simp add: remote_field_def)
  have free: "count_list ''192.0.2.7:51234'' LF = 0" "count_list ''GET'' LF = 0"
    "count_list ''/x'' LF = 0" "count_list ''-'' LF = 0"
    by (simp_all add: LF_def)
  have nw: "\<not> wrote fresh"
    by (simp add: fresh_def NewLoggingResponseWriter_def)
  note layout = Log_record_layout [OF nw, of ascii_only noon 200 1500000 5 "''-''"
      "[CHR ''a'', CHR 0x22, CHR 0x0A]" "[]"]
  have fields: "req fresh = example_request" "logWriter fresh = []"
    by (simp_all add: fresh_def NewLoggingResponseWriter_def)
  have emitted: "logWriter (Log ascii_only noon 200 1500000 5 ''-'' [CHR ''a'', CHR 0x22, CHR 0x0A] fresh)
       = [''2024-03-09T12:00:00Z 192.0.2.7 GET '' @ [CHR 0x22] @ ''/x'' @ [CHR 0x22]
          @ '' 200 1 5 - '' @ [CHR 0x22] @ ''test-agent'' @ [CHR 0x22] @ '' ''
          @ [CHR 0x22, CHR ''a'', CHR 0x5C, CHR 0x22, CHR 0x5C, CHR ''n'', CHR 0x22, CHR 0x0A]]"
    using layout [THEN conjunct1]
    by (simp add: fields example_request_def ts num ua msg addr LF_def)
  have single: "one_line (last (logWriter
        (Log ascii_only noon 200 1500000 5 ''-'' [CHR ''a'', CHR 0x22, CHR 0x0A] fresh)))"
    using layout [THEN conjunct2, THEN conjunct2, THEN conjunct2, THEN conjunct2, THEN conjunct2]
      free
    by (simp add: fields example_request_def)
  show ?thesis
    using nw emitted single by simp
qed

text \<open>
  Claim C9 as it is stated fails on a request whose method holds a line feed: the record
  \<^verbatim>\<open>Log\<close> emits for it has two line feeds.
\<close>

theorem Log_record_counterexample:
  "\<not> wrote (NewLoggingResponseWriter counting_sink two_line_request [])
   \<and> \<not> one_line (last (logWriter (Log ascii_only noon 200 0 0 ''-'' []
          (NewLoggingResponseWriter counting_sink two_line_request []))))
   \<and> count_list (last (logWriter (Log ascii_only noon 200 0 0 ''-'' []
          (NewLoggingResponseWriter counting_sink two_line_request [])))) LF = 2"
proof -
  have nw: "\<not> wrote (NewLoggingResponseWriter counting_sink two_line_request [])"
    by (simp add: NewLoggingResponseWriter_def)
  have "count_list (last (logWriter (Log ascii_only noon 200 0 0 ''-'' []
          (NewLoggingResponseWriter counting_sink two_line_request [])))) LF = 2"
    by (simp add: Log_when_not_wrote [OF nw] log_record_count_LF)
      (simp add: NewLoggingResponseWriter_def two_line_request_def remote_field_def LF_def)
  then show ?thesis using nw by (simp add: one_line_def)
qed

text \<open>
  Claim C10. No operation of the writer changes \<open>wroteBytes\<close>, so it is 0 in every state
  a handler can bring a new writer to, \<^verbatim>\<open>CompressionRatio\<close> returns \<^verbatim>\<open>-\<close> there, and the
  finalizing call of \<^verbatim>\<open>ServeHTTP\<close> hands \<^verbatim>\<open>-\<close> to \<^verbatim>\<open>Log\<close> as the ratio.
\<close>

theorem wroteBytes_is_never_written:
  "wroteBytes (WriteHeader st w) = wroteBytes w
   \<and> wroteBytes (snd (Write b w)) = wroteBytes w
   \<and> wroteBytes (Log tbl now st d n ratio msg w) = wroteBytes w
   \<and> wroteBytes (LogError tbl now st err w) = wroteBytes w
   \<and> wroteBytes (snd (Hijack w)) = wroteBytes w
   \<and> wroteBytes (fst (run_handler tbl h (NewLoggingResponseWriter res r lw))) = 0
   \<and> CompressionRatio (fst (run_handler tbl h (NewLoggingResponseWriter res r lw))) = ''-''
   \<and> fst (ServeHTTP tbl lm res r elapsed finish)
       = (let w' = fst (run_handler tbl (next lm)
                          (NewLoggingResponseWriter res r (lm_logWriter lm)))
          in Log tbl finish (status w') elapsed (sentBytes w') ''-'' [] w')
   \<and> wroteBytes (fst (ServeHTTP tbl lm res r elapsed finish)) = 0
   \<and> CompressionRatio (fst (ServeHTTP tbl lm res r elapsed finish)) = ''-''"
proof -
  have zero: "wroteBytes (fst (run_handler tbl g (NewLoggingResponseWriter res r l))) = 0" for g l
    by (simp add: run_handler_wroteBytes NewLoggingResponseWriter_def)
  have serve: "fst (ServeHTTP tbl lm res r elapsed finish)
       = (let w' = fst (run_handler tbl (next lm)
                          (NewLoggingResponseWriter res r (lm_logWriter lm)))
          in Log tbl finish (status w') elapsed (sentBytes w') ''-'' [] w')"
    using ServeHTTP_unfold [OF surjective_pairing, of tbl lm res r elapsed finish]
      CompressionRatio_wroteBytes_0 [OF zero [of "next lm" "lm_logWriter lm"]]
    by (simp add: Let_def)
  have after: "wroteBytes (fst (ServeHTTP tbl lm res r elapsed finish)) = 0"
    by (simp add: serve Let_def zero)
  show ?thesis
    using zero [of h lw] serve after by (simp add: CompressionRatio_wroteBytes_0)
qed

theorem wroteBytes_is_never_written_witness:
  "sentBytes (fst (run_handler ascii_only failing_handler fresh)) = 10
   \<and> wroteBytes (fst (run_handler ascii_only failing_handler fresh)) = 0
   \<and> CompressionRatio (fst (run_handler ascii_only failing_handler fresh)) = ''-''
   \<and> logWriter (fst (ServeHTTP ascii_only \<lparr>next = hello_handler, lm_logWriter = []\<rparr>
         counting_sink example_request 1500000 noon))
       = [log_record ascii_only noon ''192.0.2.7'' ''GET'' ''/x'' 200 1500000 5 ''-''
            ''test-agent'' []]"
  using wroteBytes_is_never_written [of 200 fresh "''x''" ascii_only noon 0 0 "''-''" "[]" enospc
      failing_handler counting_sink example_request "[]"
      "\<lparr>next = hello_handler, lm_logWriter = []\<rparr>" 1500000 noon]
    run_hello [of ascii_only]
  by (simp add: fresh_def [symmetric])
    (simp add: failing_handler_def split_beta fresh_def NewLoggingResponseWriter_def
      Write_def sink_Write_def counting_sink_def Log_def Let_def example_request_def)

end
